theory Spec2Isabelle
  imports Main "HOL-Library.Word"
begin

section \<open>The gateway client (packages/fhevm-sdk/src/core)\<close>

subsection \<open>Data model\<close>

text \<open>
  \<^verbatim>\<open>FheType\<close> of \<^verbatim>\<open>types/index.ts\<close>: the eight symbolic tags. \<open>type_name\<close> is the
  tag's own text, which the template literals of the source print.
\<close>

datatype FheType = Euint8 | Euint16 | Euint32 | Euint64 | Euint128 | Euint256 | Ebool | Eaddress

fun type_name :: "FheType \<Rightarrow> string" where
  "type_name Euint8 = ''euint8''"
| "type_name Euint16 = ''euint16''"
| "type_name Euint32 = ''euint32''"
| "type_name Euint64 = ''euint64''"
| "type_name Euint128 = ''euint128''"
| "type_name Euint256 = ''euint256''"
| "type_name Ebool = ''ebool''"
| "type_name Eaddress = ''eaddress''"

text \<open>
  The argument of \<^verbatim>\<open>encrypt\<close> has the TypeScript type \<^verbatim>\<open>number | bigint | boolean\<close>.
  A \<^verbatim>\<open>number\<close> is a double: \<open>JSInteger n\<close> is a number whose value is the integer \<open>n\<close>,
  \<open>JSFractional\<close> stands for every other number but NaN (a finite number with a fractional
  part, or an infinity), \<open>JSNaN\<close> for NaN. \<^verbatim>\<open>BigInt(value)\<close> converts the first exactly and
  throws a RangeError on the other two.
\<close>

datatype js_value = JSInteger int | JSFractional | JSNaN | JSBigInt int | JSBoolean bool

text \<open>
  Thrown values. \<open>Error msg\<close> is \<^verbatim>\<open>new Error(msg)\<close>; \<open>RangeError\<close> is what \<^verbatim>\<open>BigInt\<close> throws
  (the engine's message text is not part of the source and is left out).
  \<open>error_to_string\<close> is the string a template literal makes of a caught error.
\<close>

datatype js_error = Error string | RangeError

fun error_to_string :: "js_error \<Rightarrow> string" where
  "error_to_string (Error msg) = ''Error: '' @ msg"
| "error_to_string RangeError = ''RangeError''"

datatype network = Sepolia | Mainnet | Localhost

record FhevmConfig =
  network :: network
  gatewayUrl :: string
  aclAddress :: "string option"
  kmsVerifierAddress :: "string option"
  chainId :: "int option"
  debug :: "bool option"

record EncryptedValue =
  ciphertext :: string
  ev_type :: FheType

subsection \<open>Validation and byte packing\<close>

text \<open>\<^verbatim>\<open>typeof value === 'bigint' ? value : BigInt(value)\<close>, as both helpers compute it.\<close>

fun toBigInt :: "js_value \<Rightarrow> js_error + int" where
  "toBigInt (JSBigInt n) = Inr n"
| "toBigInt (JSInteger n) = Inr n"
| "toBigInt (JSBoolean b) = Inr (if b then 1 else 0)"
| "toBigInt JSFractional = Inl RangeError"
| "toBigInt JSNaN = Inl RangeError"

text \<open>
  \<^verbatim>\<open>validateInput\<close>: the boolean type asks for a boolean; the four narrow integer types are
  range-checked; every other tag takes the \<^verbatim>\<open>default\<close> branch of the switch.
\<close>

fun validateInput :: "js_value \<Rightarrow> FheType \<Rightarrow> js_error + bool" where
  "validateInput v Ebool = Inr (case v of JSBoolean _ \<Rightarrow> True | _ \<Rightarrow> False)"
| "validateInput v t =
     (case toBigInt v of
        Inl e \<Rightarrow> Inl e
      | Inr numValue \<Rightarrow>
          Inr (case t of
                 Euint8 \<Rightarrow> numValue \<ge> 0 \<and> numValue \<le> 255
               | Euint16 \<Rightarrow> numValue \<ge> 0 \<and> numValue \<le> 65535
               | Euint32 \<Rightarrow> numValue \<ge> 0 \<and> numValue \<le> 4294967295
               | Euint64 \<Rightarrow> numValue \<ge> 0 \<and> numValue \<le> 18446744073709551615
               | _ \<Rightarrow> True))"

fun getByteLengthForType :: "FheType \<Rightarrow> nat" where
  "getByteLengthForType Euint8 = 1"
| "getByteLengthForType Ebool = 1"
| "getByteLengthForType Euint16 = 2"
| "getByteLengthForType Euint32 = 4"
| "getByteLengthForType Euint64 = 8"
| "getByteLengthForType Euint128 = 16"
| "getByteLengthForType Euint256 = 32"
| "getByteLengthForType Eaddress = 32"

text \<open>
  The loop of \<^verbatim>\<open>valueToBytes\<close>, on the state \<open>(i, tempValue, bytes)\<close>:
  \<^verbatim>\<open>bytes[i] = Number(tempValue & 0xFFn); tempValue >>= 8n\<close>. On a BigInt, \<^verbatim>\<open>&\<close> and
  \<^verbatim>\<open>>>\<close> act on the infinite two's complement, as \<open>and\<close> and \<open>drop_bit\<close> do on \<open>int\<close>.
  A \<^verbatim>\<open>Uint8Array\<close> is a list of bytes, zero-filled when created.
\<close>

function valueToBytes_loop :: "nat \<Rightarrow> nat \<Rightarrow> int \<Rightarrow> 8 word list \<Rightarrow> 8 word list" where
  "valueToBytes_loop i byteLength tempValue bytes =
     (if i < byteLength
      then valueToBytes_loop (i + 1) byteLength (drop_bit 8 tempValue)
             (bytes[i := word_of_int (and tempValue 0xFF)])
      else bytes)"
  by pat_completeness auto
termination
  by (relation "measure (\<lambda>(i, byteLength, tempValue, bytes). byteLength - i)") auto

declare valueToBytes_loop.simps [simp del]

text \<open>The truthiness test \<^verbatim>\<open>value ? 1 : 0\<close> of the boolean branch.\<close>

fun truthy :: "js_value \<Rightarrow> bool" where
  "truthy (JSBoolean b) = b"
| "truthy (JSInteger n) = (n \<noteq> 0)"
| "truthy (JSBigInt n) = (n \<noteq> 0)"
| "truthy JSFractional = True"
| "truthy JSNaN = False"

definition valueToBytes :: "js_value \<Rightarrow> FheType \<Rightarrow> js_error + 8 word list" where
  "valueToBytes v t =
     (if t = Ebool then Inr [if truthy v then 1 else 0]
      else case toBigInt v of
             Inl e \<Rightarrow> Inl e
           | Inr numValue \<Rightarrow>
               (let byteLength = getByteLengthForType t;
                    bytes = replicate byteLength 0
                in Inr (valueToBytes_loop 0 byteLength numValue bytes)))"

subsection \<open>The placeholder encryption\<close>

text \<open>
  \<^verbatim>\<open>b.toString(16).padStart(2, '0')\<close> for an element \<open>b\<close> of a \<^verbatim>\<open>Uint8Array\<close>
  (so \<open>b < 256\<close>: one or two hexadecimal digits, lower case).
\<close>

definition hexDigit :: "nat \<Rightarrow> char" where
  "hexDigit d = ''0123456789abcdef'' ! d"

definition toString16 :: "8 word \<Rightarrow> string" where
  "toString16 b =
     (if unat b < 16 then [hexDigit (unat b)]
      else [hexDigit (unat b div 16), hexDigit (unat b mod 16)])"

definition padStart :: "nat \<Rightarrow> char \<Rightarrow> string \<Rightarrow> string" where
  "padStart n c s = replicate (n - length s) c @ s"

definition performEncryption :: "8 word list \<Rightarrow> FheType \<Rightarrow> FhevmConfig \<Rightarrow> string" where
  "performEncryption bytes t config =
     (let bytesHex = concat (map (\<lambda>b. padStart 2 (CHR ''0'') (toString16 b)) bytes)
      in ''0x'' @ bytesHex @ type_name t)"

text \<open>
  \<^verbatim>\<open>encrypt\<close>. A rejected promise is \<open>Inl\<close>. The validation runs outside the \<^verbatim>\<open>try\<close>;
  whatever the block throws is rethrown as \<^verbatim>\<open>Encryption failed: ...\<close>. The debug log
  writes to the console only and is not modelled.
\<close>

definition encrypt :: "js_value \<Rightarrow> FheType \<Rightarrow> FhevmConfig \<Rightarrow> js_error + EncryptedValue" where
  "encrypt v t config =
     (case validateInput v t of
        Inl e \<Rightarrow> Inl e
      | Inr False \<Rightarrow> Inl (Error (''Invalid input for type '' @ type_name t))
      | Inr True \<Rightarrow>
          (case valueToBytes v t of
             Inl e \<Rightarrow> Inl (Error (''Encryption failed: '' @ error_to_string e))
           | Inr bytes \<Rightarrow>
               Inr \<lparr>ciphertext = performEncryption bytes t config, ev_type = t\<rparr>))"

subsection \<open>Little-endian encoding, as the specification words it\<close>

text \<open>
  The specification's "little-endian fixed-width byte sequence" of a value, and the
  decoding of such a sequence: byte \<open>j\<close> carries the digit of weight \<open>256 ^ j\<close>. These two
  follow the specification; \<open>valueToBytes\<close> above follows the source.
\<close>

primrec spec_le_encode :: "nat \<Rightarrow> int \<Rightarrow> 8 word list" where
  "spec_le_encode 0 v = []"
| "spec_le_encode (Suc k) v = word_of_int (v mod 256) # spec_le_encode k (v div 256)"


text \<open>
  The six unsigned-integer tags, the width in bits that each tag names, and membership of a
  type's range. For the boolean and the address tag \<open>bit_width\<close> gives the size of an
  EVM boolean and address; the properties below only use it for the six integer tags.
\<close>

fun bit_width :: "FheType \<Rightarrow> nat" where
  "bit_width Euint8 = 8"
| "bit_width Euint16 = 16"
| "bit_width Euint32 = 32"
| "bit_width Euint64 = 64"
| "bit_width Euint128 = 128"
| "bit_width Euint256 = 256"
| "bit_width Ebool = 1"
| "bit_width Eaddress = 160"


definition in_range :: "int \<Rightarrow> FheType \<Rightarrow> bool" where
  "in_range v t = (0 \<le> v \<and> v < 2 ^ bit_width t)"


definition example_config :: FhevmConfig where
  "example_config =
     \<lparr>network = Sepolia, gatewayUrl = ''https://gateway.example'', aclAddress = None,
      kmsVerifierAddress = None, chainId = None, debug = None\<rparr>"

subsection \<open>The client registry\<close>

text \<open>
  \<^verbatim>\<open>FhevmClient\<close> objects live on a heap, so that "the same instance" means the same
  reference. The heap is a list and a reference is an index into it; allocation appends.
  The four methods of a client are closures over its configuration (\<open>client_encrypt\<close>
  below is \<^verbatim>\<open>client.encrypt\<close>), so the record keeps the two data fields.
  \<open>globalInstance\<close> is the module-level variable.
\<close>

record FhevmClient =
  config :: FhevmConfig
  isInitialized :: bool

type_synonym ref = nat

record sdk_state =
  heap :: "FhevmClient list"
  globalInstance :: "ref option"

definition initial_sdk_state :: sdk_state where
  "initial_sdk_state = \<lparr>heap = [], globalInstance = None\<rparr>"

definition client_encrypt :: "FhevmClient \<Rightarrow> js_value \<Rightarrow> FheType \<Rightarrow> js_error + EncryptedValue" where
  "client_encrypt c v t = encrypt v t (config c)"

text \<open>
  The gateway is outside the program: \<open>fetch\<close> maps the URL of a GET request to what
  the request does, a response with its \<^verbatim>\<open>ok\<close> flag or a rejection.
\<close>

datatype fetch_result = Response bool | NetworkFailure

text \<open>
  \<^verbatim>\<open>testGatewayConnection\<close>: the \<^verbatim>\<open>catch\<close> also catches the error the body throws on a
  response that is not ok, so both failures leave as the same error.
\<close>

definition testGatewayConnection :: "(string \<Rightarrow> fetch_result) \<Rightarrow> string \<Rightarrow> js_error + unit" where
  "testGatewayConnection fetch url =
     (case fetch (url @ ''/health'') of
        NetworkFailure \<Rightarrow> Inl (Error (''Cannot connect to Gateway at '' @ url))
      | Response ok \<Rightarrow>
          if \<not> ok then Inl (Error (''Cannot connect to Gateway at '' @ url))
          else Inr ())"

text \<open>\<^verbatim>\<open>globalInstance && globalInstance.isInitialized\<close>, giving the reference when it holds.\<close>

definition ready_singleton :: "sdk_state \<Rightarrow> ref option" where
  "ready_singleton s =
     (case globalInstance s of
        None \<Rightarrow> None
      | Some r \<Rightarrow> if r < length (heap s) \<and> isInitialized (heap s ! r) then Some r else None)"

text \<open>
  \<^verbatim>\<open>initFhevm\<close>, one call run to its end: the result (the returned reference, or the
  error the promise rejects with) and the state after it. The client object is created
  before the probe; on a failed probe it stays on the heap, referenced by nothing.
\<close>

definition initFhevm ::
  "(string \<Rightarrow> fetch_result) \<Rightarrow> FhevmConfig \<Rightarrow> sdk_state \<Rightarrow> (js_error + ref) \<times> sdk_state" where
  "initFhevm fetch cfg s =
     (case ready_singleton s of
        Some r \<Rightarrow> (Inr r, s)
      | None \<Rightarrow>
          (let client = length (heap s);
               s1 = s\<lparr>heap := heap s @ [\<lparr>config = cfg, isInitialized = False\<rparr>]\<rparr>
           in case testGatewayConnection fetch (gatewayUrl cfg) of
                Inr _ \<Rightarrow>
                  (Inr client,
                   s1\<lparr>heap := (heap s1)[client := (heap s1 ! client)\<lparr>isInitialized := True\<rparr>],
                      globalInstance := Some client\<rparr>)
              | Inl e \<Rightarrow>
                  (Inl (Error (''Failed to initialize FHEVM SDK: '' @ error_to_string e)), s1)))"

definition getFhevmClient :: "sdk_state \<Rightarrow> ref option" where
  "getFhevmClient s = globalInstance s"

definition reachable_gateway :: "string \<Rightarrow> fetch_result" where
  "reachable_gateway url = Response True"

definition unreachable_gateway :: "string \<Rightarrow> fetch_result" where
  "unreachable_gateway url = NetworkFailure"

section \<open>The framework adapter (packages/fhevm-sdk/src/react)\<close>

record FhevmContextValue =
  cv_client :: "ref option"
  cv_isInitialized :: bool
  cv_isInitializing :: bool
  cv_error :: "js_error option"

record UseFhevmReturn =
  ur_client :: "ref option"
  ur_isInitialized :: bool
  ur_isInitializing :: bool
  ur_error :: "js_error option"

text \<open>
  A context value is a JavaScript value that the hook tests with \<^verbatim>\<open>!context\<close>: \<open>None\<close>
  is \<^verbatim>\<open>null\<close> or \<^verbatim>\<open>undefined\<close>, \<open>Some v\<close> an object. \<open>FhevmContext_default\<close> is the
  argument of \<^verbatim>\<open>createContext\<close>.
\<close>

definition FhevmContext_default :: "FhevmContextValue option" where
  "FhevmContext_default =
     Some \<lparr>cv_client = None, cv_isInitialized = False, cv_isInitializing = False, cv_error = None\<rparr>"

text \<open>
  React's \<^verbatim>\<open>useContext\<close>: the place of the calling component in the tree is the list of
  the values of the context's providers above it, nearest first. The hook reads the
  nearest one; with no provider above, it reads the default given to \<^verbatim>\<open>createContext\<close>.
\<close>

definition useContext :: "'a \<Rightarrow> 'a list \<Rightarrow> 'a" where
  "useContext defaultValue providers = (case providers of [] \<Rightarrow> defaultValue | v # _ \<Rightarrow> v)"

definition useFhevmContext :: "FhevmContextValue option list \<Rightarrow> js_error + FhevmContextValue" where
  "useFhevmContext providers =
     (case useContext FhevmContext_default providers of
        None \<Rightarrow> Inl (Error ''useFhevmContext must be used within FhevmProvider'')
      | Some context \<Rightarrow> Inr context)"

definition useFhevm :: "FhevmContextValue option list \<Rightarrow> js_error + UseFhevmReturn" where
  "useFhevm providers =
     (case useFhevmContext providers of
        Inl e \<Rightarrow> Inl e
      | Inr context \<Rightarrow>
          Inr \<lparr>ur_client = cv_client context, ur_isInitialized = cv_isInitialized context,
               ur_isInitializing = cv_isInitializing context, ur_error = cv_error context\<rparr>)"


section \<open>The matching contract (PrivateRentalMatching, contracts/README.md)\<close>

subsection \<open>Storage\<close>

text \<open>
  An \<^verbatim>\<open>address\<close> is a 160-bit word, \<^verbatim>\<open>address(0)\<close> is \<open>0\<close>. A \<^verbatim>\<open>uint256\<close> is a natural
  number; the one place where the contract's arithmetic on it can overflow, the increment
  of a counter, reverts there as checked arithmetic does. \<^verbatim>\<open>uint8\<close> and \<^verbatim>\<open>uint32\<close>
  arguments are words. The encrypted handles \<^verbatim>\<open>euint8\<close> and \<^verbatim>\<open>euint32\<close> are kept as the
  words \<^verbatim>\<open>FHE.asEuint8\<close> and \<^verbatim>\<open>FHE.asEuint32\<close> were given; the access lists that
  \<^verbatim>\<open>FHE.allow\<close> and \<^verbatim>\<open>FHE.allowThis\<close> write are storage of the FHE library, not of this
  contract. Gas is not modelled.
\<close>

type_synonym address = "160 word"

record PropertyListing =
  encryptedPrice :: "32 word"
  encryptedBedrooms :: "8 word"
  encryptedPostalCode :: "32 word"
  encryptedPropertyType :: "8 word"
  l_isActive :: bool
  landlord :: address
  l_timestamp :: nat
  l_isMatched :: bool

record RentalRequest =
  encryptedMaxBudget :: "32 word"
  encryptedMinBedrooms :: "8 word"
  encryptedPreferredPostalCode :: "32 word"
  encryptedPreferredPropertyType :: "8 word"
  r_isActive :: bool
  tenant :: address
  r_timestamp :: nat
  r_isMatched :: bool

record Match =
  listingId :: nat
  requestId :: nat
  m_landlord :: address
  m_tenant :: address
  m_timestamp :: nat
  isConfirmed :: bool
  landlordConfirmed :: bool
  tenantConfirmed :: bool

datatype event =
    ListingCreated nat address
  | RequestCreated nat address
  | MatchCreated nat nat nat
  | MatchConfirmed nat address

text \<open>
  The contract's storage. A Solidity mapping is total: a key never written holds the zero
  value of its type. \<open>events\<close> is the log of the events emitted so far.
\<close>

record contract =
  owner :: address
  listingIdCounter :: nat
  requestIdCounter :: nat
  matchCounter :: nat
  kmsGeneration :: nat
  pauserAddresses :: "address list"
  isPaused :: bool
  isPauserAddress :: "address \<Rightarrow> bool"
  decryptionRequestCounter :: nat
  listings :: "nat \<Rightarrow> PropertyListing"
  requests :: "nat \<Rightarrow> RentalRequest"
  matches :: "nat \<Rightarrow> Match"
  userListings :: "address \<Rightarrow> nat list"
  userRequests :: "address \<Rightarrow> nat list"
  events :: "event list"

definition zero_listing :: PropertyListing where
  "zero_listing =
     \<lparr>encryptedPrice = 0, encryptedBedrooms = 0, encryptedPostalCode = 0,
      encryptedPropertyType = 0, l_isActive = False, landlord = 0, l_timestamp = 0,
      l_isMatched = False\<rparr>"

definition zero_request :: RentalRequest where
  "zero_request =
     \<lparr>encryptedMaxBudget = 0, encryptedMinBedrooms = 0, encryptedPreferredPostalCode = 0,
      encryptedPreferredPropertyType = 0, r_isActive = False, tenant = 0, r_timestamp = 0,
      r_isMatched = False\<rparr>"

definition zero_match :: Match where
  "zero_match =
     \<lparr>listingId = 0, requestId = 0, m_landlord = 0, m_tenant = 0, m_timestamp = 0,
      isConfirmed = False, landlordConfirmed = False, tenantConfirmed = False\<rparr>"

definition MAX_UINT256 :: nat where
  "MAX_UINT256 = 2 ^ 256 - 1"

text \<open>How a call ends when it does not succeed: \<^verbatim>\<open>require\<close> and \<^verbatim>\<open>revert\<close> give a reason
  string, an overflowing checked increment gives \<^verbatim>\<open>Panic(0x11)\<close>.\<close>

datatype revert = Reason string | Panic nat

subsection \<open>Constructor\<close>

definition constructor :: "address \<Rightarrow> address list \<Rightarrow> nat \<Rightarrow> contract" where
  "constructor sender pausers kms =
     foldl (\<lambda>s a. s\<lparr>pauserAddresses := pauserAddresses s @ [a],
                     isPauserAddress := (isPauserAddress s)(a := True)\<rparr>)
       \<lparr>owner = sender, listingIdCounter = 1, requestIdCounter = 1, matchCounter = 1,
        kmsGeneration = kms, pauserAddresses = [], isPaused = False,
        isPauserAddress = (\<lambda>_. False), decryptionRequestCounter = 0,
        listings = (\<lambda>_. zero_listing), requests = (\<lambda>_. zero_request),
        matches = (\<lambda>_. zero_match), userListings = (\<lambda>_. []), userRequests = (\<lambda>_. []),
        events = []\<rparr>
       pausers"

subsection \<open>State-changing entry points\<close>

text \<open>
  Each takes the storage, \<^verbatim>\<open>msg.sender\<close>, \<^verbatim>\<open>block.timestamp\<close> (where it is read) and
  the arguments, and gives the storage after the call or how the call reverted. The
  modifier \<^verbatim>\<open>whenNotPaused\<close> is the first test of each body it guards.
\<close>

definition createListing ::
  "contract \<Rightarrow> address \<Rightarrow> nat \<Rightarrow> 32 word \<Rightarrow> 8 word \<Rightarrow> 32 word \<Rightarrow> 8 word \<Rightarrow> revert + contract" where
  "createListing s sender now price bedrooms postalCode propertyType =
     (if isPaused s then Inl (Reason ''Contract is paused'')
      else if \<not> price > 0 then Inl (Reason ''Price must be greater than 0'')
      else if \<not> (bedrooms > 0 \<and> bedrooms \<le> 10) then Inl (Reason ''Invalid bedroom count'')
      else if \<not> (propertyType \<ge> 1 \<and> propertyType \<le> 3) then Inl (Reason ''Invalid property type'')
      else if listingIdCounter s \<ge> MAX_UINT256 then Inl (Panic 0x11)
      else Inr (s\<lparr>listings := (listings s)(listingIdCounter s :=
                    \<lparr>encryptedPrice = price, encryptedBedrooms = bedrooms,
                     encryptedPostalCode = postalCode, encryptedPropertyType = propertyType,
                     l_isActive = True, landlord = sender, l_timestamp = now,
                     l_isMatched = False\<rparr>),
                  userListings := (userListings s)(sender :=
                    userListings s sender @ [listingIdCounter s]),
                  events := events s @ [ListingCreated (listingIdCounter s) sender],
                  listingIdCounter := listingIdCounter s + 1\<rparr>))"

definition createRequest ::
  "contract \<Rightarrow> address \<Rightarrow> nat \<Rightarrow> 32 word \<Rightarrow> 8 word \<Rightarrow> 32 word \<Rightarrow> 8 word \<Rightarrow> revert + contract" where
  "createRequest s sender now maxBudget minBedrooms preferredPostalCode preferredPropertyType =
     (if isPaused s then Inl (Reason ''Contract is paused'')
      else if \<not> maxBudget > 0 then Inl (Reason ''Budget must be greater than 0'')
      else if \<not> (minBedrooms > 0 \<and> minBedrooms \<le> 10) then Inl (Reason ''Invalid bedroom count'')
      else if \<not> (preferredPropertyType \<ge> 1 \<and> preferredPropertyType \<le> 3)
        then Inl (Reason ''Invalid property type'')
      else if requestIdCounter s \<ge> MAX_UINT256 then Inl (Panic 0x11)
      else Inr (s\<lparr>requests := (requests s)(requestIdCounter s :=
                    \<lparr>encryptedMaxBudget = maxBudget, encryptedMinBedrooms = minBedrooms,
                     encryptedPreferredPostalCode = preferredPostalCode,
                     encryptedPreferredPropertyType = preferredPropertyType,
                     r_isActive = True, tenant = sender, r_timestamp = now,
                     r_isMatched = False\<rparr>),
                  userRequests := (userRequests s)(sender :=
                    userRequests s sender @ [requestIdCounter s]),
                  events := events s @ [RequestCreated (requestIdCounter s) sender],
                  requestIdCounter := requestIdCounter s + 1\<rparr>))"

text \<open>
  \<^verbatim>\<open>createMatch\<close>. The four encrypted comparisons (\<^verbatim>\<open>FHE.le\<close>, \<^verbatim>\<open>FHE.ge\<close>, \<^verbatim>\<open>FHE.eq\<close>)
  produce handles that the function neither stores nor tests, so they do not appear.
\<close>

definition createMatch :: "contract \<Rightarrow> address \<Rightarrow> nat \<Rightarrow> nat \<Rightarrow> nat \<Rightarrow> revert + contract" where
  "createMatch s sender now lid rid =
     (if isPaused s then Inl (Reason ''Contract is paused'')
      else if \<not> l_isActive (listings s lid) then Inl (Reason ''Listing not active'')
      else if \<not> r_isActive (requests s rid) then Inl (Reason ''Request not active'')
      else if l_isMatched (listings s lid) then Inl (Reason ''Listing already matched'')
      else if r_isMatched (requests s rid) then Inl (Reason ''Request already matched'')
      else if \<not> (sender = landlord (listings s lid) \<or> sender = tenant (requests s rid))
        then Inl (Reason ''Not authorized to create this match'')
      else if matchCounter s \<ge> MAX_UINT256 then Inl (Panic 0x11)
      else Inr (s\<lparr>matches := (matches s)(matchCounter s :=
                    \<lparr>listingId = lid, requestId = rid,
                     m_landlord = landlord (listings s lid),
                     m_tenant = tenant (requests s rid), m_timestamp = now,
                     isConfirmed = False, landlordConfirmed = False,
                     tenantConfirmed = False\<rparr>),
                  listings := (listings s)(lid := (listings s lid)\<lparr>l_isMatched := True\<rparr>),
                  requests := (requests s)(rid := (requests s rid)\<lparr>r_isMatched := True\<rparr>),
                  events := events s @ [MatchCreated (matchCounter s) lid rid],
                  matchCounter := matchCounter s + 1\<rparr>))"

text \<open>\<^verbatim>\<open>confirmMatch\<close>: \<open>matchData\<close> is the storage reference, so the last test reads the
  flag the branch has just written.\<close>

definition confirmMatch :: "contract \<Rightarrow> address \<Rightarrow> nat \<Rightarrow> revert + contract" where
  "confirmMatch s sender mid =
     (if isPaused s then Inl (Reason ''Contract is paused'')
      else if \<not> m_landlord (matches s mid) \<noteq> 0 then Inl (Reason ''Match does not exist'')
      else if isConfirmed (matches s mid) then Inl (Reason ''Match already confirmed'')
      else
        (case
           (if sender = m_landlord (matches s mid) then
              (if landlordConfirmed (matches s mid)
               then Inl (Reason ''Already confirmed by landlord'')
               else Inr ((matches s mid)\<lparr>landlordConfirmed := True\<rparr>))
            else if sender = m_tenant (matches s mid) then
              (if tenantConfirmed (matches s mid)
               then Inl (Reason ''Already confirmed by tenant'')
               else Inr ((matches s mid)\<lparr>tenantConfirmed := True\<rparr>))
            else Inl (Reason ''Not authorized to confirm this match''))
         of
           Inl r \<Rightarrow> Inl r
         | Inr matchData \<Rightarrow>
             Inr (s\<lparr>matches := (matches s)(mid :=
                      (if landlordConfirmed matchData \<and> tenantConfirmed matchData
                       then matchData\<lparr>isConfirmed := True\<rparr> else matchData)),
                    events := events s @ [MatchConfirmed mid sender]\<rparr>)))"

subsection \<open>Read-only entry points\<close>

definition getUserListings :: "contract \<Rightarrow> address \<Rightarrow> nat list" where
  "getUserListings s user = userListings s user"

definition getUserRequests :: "contract \<Rightarrow> address \<Rightarrow> nat list" where
  "getUserRequests s user = userRequests s user"

function getActiveListingsCount_loop :: "contract \<Rightarrow> nat \<Rightarrow> nat \<Rightarrow> nat" where
  "getActiveListingsCount_loop s i count =
     (if i < listingIdCounter s
      then getActiveListingsCount_loop s (i + 1)
             (if l_isActive (listings s i) \<and> \<not> l_isMatched (listings s i)
              then count + 1 else count)
      else count)"
  by pat_completeness auto
termination
  by (relation "measure (\<lambda>(s, i, count). listingIdCounter s - i)") auto

declare getActiveListingsCount_loop.simps [simp del]

definition getActiveListingsCount :: "contract \<Rightarrow> nat" where
  "getActiveListingsCount s = getActiveListingsCount_loop s 1 0"

function getActiveRequestsCount_loop :: "contract \<Rightarrow> nat \<Rightarrow> nat \<Rightarrow> nat" where
  "getActiveRequestsCount_loop s i count =
     (if i < requestIdCounter s
      then getActiveRequestsCount_loop s (i + 1)
             (if r_isActive (requests s i) \<and> \<not> r_isMatched (requests s i)
              then count + 1 else count)
      else count)"
  by pat_completeness auto
termination
  by (relation "measure (\<lambda>(s, i, count). requestIdCounter s - i)") auto

declare getActiveRequestsCount_loop.simps [simp del]

definition getActiveRequestsCount :: "contract \<Rightarrow> nat" where
  "getActiveRequestsCount s = getActiveRequestsCount_loop s 1 0"


subsection \<open>Entry points the specification names and the contract source does not show\<close>

text \<open>
  The specification lists pause/unpause, add/remove pauser, deactivate listing and cancel
  request among the contract's entry points, and the test-suite calls them; the contract
  text declares the modifier \<^verbatim>\<open>onlyOwner\<close>, the pause flag and the pauser list that they
  would use, but not the functions. They are part of the transition system below so that
  what is proved of every reachable state also covers them.
\<close>

text \<open>Modelled from the spec: \<^verbatim>\<open>pause\<close> is missing from the source. "A global pause flag
  (settable only by a small allow-listed set of pauser identities ...)".\<close>

definition pause :: "contract \<Rightarrow> address \<Rightarrow> revert + contract" where
  "pause s sender =
     (if \<not> isPauserAddress s sender then Inl (Reason ''Not authorized to pause'')
      else Inr (s\<lparr>isPaused := True\<rparr>))"

text \<open>Modelled from the spec: \<^verbatim>\<open>unpause\<close> is missing from the source. The same allow-list
  clears the flag ("unpausing restores them").\<close>

definition unpause :: "contract \<Rightarrow> address \<Rightarrow> revert + contract" where
  "unpause s sender =
     (if \<not> isPauserAddress s sender then Inl (Reason ''Not authorized to pause'')
      else Inr (s\<lparr>isPaused := False\<rparr>))"

text \<open>Modelled from the spec: \<^verbatim>\<open>addPauser\<close> is missing from the source. The allow-list is
  "itself managed by a separate owner identity"; the test is the source's \<^verbatim>\<open>onlyOwner\<close>.\<close>

definition addPauser :: "contract \<Rightarrow> address \<Rightarrow> address \<Rightarrow> revert + contract" where
  "addPauser s sender a =
     (if \<not> sender = owner s then Inl (Reason ''Not authorized'')
      else Inr (s\<lparr>pauserAddresses := pauserAddresses s @ [a],
                  isPauserAddress := (isPauserAddress s)(a := True)\<rparr>))"

text \<open>Modelled from the spec: \<^verbatim>\<open>removePauser\<close> is missing from the source. As
  \<open>addPauser\<close>, taking the identity off the allow-list.\<close>

definition removePauser :: "contract \<Rightarrow> address \<Rightarrow> address \<Rightarrow> revert + contract" where
  "removePauser s sender a =
     (if \<not> sender = owner s then Inl (Reason ''Not authorized'')
      else Inr (s\<lparr>pauserAddresses := removeAll a (pauserAddresses s),
                  isPauserAddress := (isPauserAddress s)(a := False)\<rparr>))"

text \<open>Modelled from the spec: \<^verbatim>\<open>deactivateListing\<close> is missing from the source. A listing
  is "deactivated (active to false) only by its owner; once matched, immutable".\<close>

definition deactivateListing :: "contract \<Rightarrow> address \<Rightarrow> nat \<Rightarrow> revert + contract" where
  "deactivateListing s sender lid =
     (if \<not> sender = landlord (listings s lid) then Inl (Reason ''Not the listing owner'')
      else if l_isMatched (listings s lid) then Inl (Reason ''Listing already matched'')
      else Inr (s\<lparr>listings := (listings s)(lid := (listings s lid)\<lparr>l_isActive := False\<rparr>)\<rparr>))"

text \<open>Modelled from the spec: \<^verbatim>\<open>cancelRequest\<close> is missing from the source. A request is
  "cancelled (active to false) only by its owner".\<close>

definition cancelRequest :: "contract \<Rightarrow> address \<Rightarrow> nat \<Rightarrow> revert + contract" where
  "cancelRequest s sender rid =
     (if \<not> sender = tenant (requests s rid) then Inl (Reason ''Not the request owner'')
      else Inr (s\<lparr>requests := (requests s)(rid := (requests s rid)\<lparr>r_isActive := False\<rparr>)\<rparr>))"

subsection \<open>Transactions and reachable states\<close>

datatype call =
    CreateListing "32 word" "8 word" "32 word" "8 word"
  | CreateRequest "32 word" "8 word" "32 word" "8 word"
  | CreateMatch nat nat
  | ConfirmMatch nat
  | Pause
  | Unpause
  | AddPauser address
  | RemovePauser address
  | DeactivateListing nat
  | CancelRequest nat

fun call_result :: "contract \<Rightarrow> address \<Rightarrow> nat \<Rightarrow> call \<Rightarrow> revert + contract" where
  "call_result s sender now (CreateListing p b z t) = createListing s sender now p b z t"
| "call_result s sender now (CreateRequest p b z t) = createRequest s sender now p b z t"
| "call_result s sender now (CreateMatch lid rid) = createMatch s sender now lid rid"
| "call_result s sender now (ConfirmMatch mid) = confirmMatch s sender mid"
| "call_result s sender now Pause = pause s sender"
| "call_result s sender now Unpause = unpause s sender"
| "call_result s sender now (AddPauser a) = addPauser s sender a"
| "call_result s sender now (RemovePauser a) = removePauser s sender a"
| "call_result s sender now (DeactivateListing lid) = deactivateListing s sender lid"
| "call_result s sender now (CancelRequest rid) = cancelRequest s sender rid"

text \<open>
  A transaction: the storage after it. A call that reverts leaves the storage, the event
  log included, as it was before the call; this is the ledger's rule, not the contract's.
\<close>

definition transact :: "contract \<Rightarrow> address \<Rightarrow> nat \<Rightarrow> call \<Rightarrow> contract" where
  "transact s sender now c = (case call_result s sender now c of Inl _ \<Rightarrow> s | Inr s' \<Rightarrow> s')"

text \<open>The states of a deployed contract, and the states that follow a given state.\<close>

inductive reachable :: "contract \<Rightarrow> bool" where
  deployed: "reachable (constructor sender pausers kms)"
| transacted: "reachable s \<Longrightarrow> reachable (transact s sender now c)"

inductive later :: "contract \<Rightarrow> contract \<Rightarrow> bool" where
  same: "later s s"
| after: "later s s' \<Longrightarrow> later s (transact s' sender now c)"

text \<open>How many times \<open>a\<close> has confirmed match \<open>mid\<close>: every successful \<open>confirmMatch\<close>
  logs one \<open>MatchConfirmed\<close>, and a reverted one logs nothing.\<close>

definition confirmations :: "contract \<Rightarrow> nat \<Rightarrow> address \<Rightarrow> nat" where
  "confirmations s mid a = count_list (events s) (MatchConfirmed mid a)"

text \<open>A record exists when its identifier has been issued.\<close>

definition listing_exists :: "contract \<Rightarrow> nat \<Rightarrow> bool" where
  "listing_exists s lid = (0 < lid \<and> lid < listingIdCounter s)"

definition request_exists :: "contract \<Rightarrow> nat \<Rightarrow> bool" where
  "request_exists s rid = (0 < rid \<and> rid < requestIdCounter s)"


subsection \<open>Invariants of the reachable states\<close>

text \<open>
  Identifiers are issued from 1 upwards, so the mappings hold the zero value at 0 and at
  every identifier not yet issued.
\<close>

definition issued_inv :: "contract \<Rightarrow> bool" where
  "issued_inv s =
     (1 \<le> listingIdCounter s \<and> 1 \<le> requestIdCounter s \<and> 1 \<le> matchCounter s
      \<and> (\<forall>lid. lid = 0 \<or> listingIdCounter s \<le> lid \<longrightarrow> listings s lid = zero_listing)
      \<and> (\<forall>rid. rid = 0 \<or> requestIdCounter s \<le> rid \<longrightarrow> requests s rid = zero_request)
      \<and> (\<forall>mid. mid = 0 \<or> matchCounter s \<le> mid \<longrightarrow> matches s mid = zero_match))"

text \<open>
  The three flags of a match and the log agree: the overall flag is the conjunction of the
  party flags, the tenant's flag is only ever set for a tenant other than the landlord,
  and the log holds one \<open>MatchConfirmed\<close> for each party flag that is set.
\<close>

definition confirm_inv :: "contract \<Rightarrow> bool" where
  "confirm_inv s =
     (\<forall>mid.
        (isConfirmed (matches s mid) \<longleftrightarrow>
           landlordConfirmed (matches s mid) \<and> tenantConfirmed (matches s mid))
        \<and> (tenantConfirmed (matches s mid) \<longrightarrow>
             m_tenant (matches s mid) \<noteq> m_landlord (matches s mid))
        \<and> (\<forall>a. count_list (events s) (MatchConfirmed mid a) =
               (if a = m_landlord (matches s mid) \<and> landlordConfirmed (matches s mid)
                then 1 else 0)
               + (if a = m_tenant (matches s mid) \<and> tenantConfirmed (matches s mid)
                  then 1 else 0)))"

text \<open>What a later state keeps of a match: its parties, and every flag that is set.\<close>

definition match_kept :: "nat \<Rightarrow> contract \<Rightarrow> contract \<Rightarrow> bool" where
  "match_kept mid s s' =
     (mid < matchCounter s'
      \<and> m_landlord (matches s' mid) = m_landlord (matches s mid)
      \<and> m_tenant (matches s' mid) = m_tenant (matches s mid)
      \<and> (landlordConfirmed (matches s mid) \<longrightarrow> landlordConfirmed (matches s' mid))
      \<and> (tenantConfirmed (matches s mid) \<longrightarrow> tenantConfirmed (matches s' mid))
      \<and> (isConfirmed (matches s mid) \<longrightarrow> isConfirmed (matches s' mid)))"

text \<open>When \<open>createMatch\<close> is permitted: the caller is one of the two owners, and both
  records exist, are active and are unmatched.\<close>

definition match_permitted :: "contract \<Rightarrow> address \<Rightarrow> nat \<Rightarrow> nat \<Rightarrow> bool" where
  "match_permitted s a lid rid =
     ((a = landlord (listings s lid) \<or> a = tenant (requests s rid))
      \<and> listing_exists s lid \<and> request_exists s rid
      \<and> l_isActive (listings s lid) \<and> r_isActive (requests s rid)
      \<and> \<not> l_isMatched (listings s lid) \<and> \<not> r_isMatched (requests s rid))"

definition createMatch_reasons :: "string set" where
  "createMatch_reasons =
     {''Contract is paused'', ''Listing not active'', ''Request not active'',
      ''Listing already matched'', ''Request already matched'',
      ''Not authorized to create this match''}"

text \<open>The scenario of the specification's section 8, state by state: a landlord lists, a
  tenant requests, the landlord matches the two, and both confirm.\<close>

definition scenario_landlord :: address where
  "scenario_landlord = 1"

definition scenario_tenant :: address where
  "scenario_tenant = 2"

definition scenario_deployed :: contract where
  "scenario_deployed = constructor 3 [4] 1"

definition scenario_listed :: contract where
  "scenario_listed = transact scenario_deployed scenario_landlord 100 (CreateListing 2000 2 12345 1)"

definition scenario_requested :: contract where
  "scenario_requested = transact scenario_listed scenario_tenant 101 (CreateRequest 2500 2 12345 1)"

definition scenario_matched :: contract where
  "scenario_matched = transact scenario_requested scenario_landlord 102 (CreateMatch 1 1)"

definition scenario_half_confirmed :: contract where
  "scenario_half_confirmed = transact scenario_matched scenario_landlord 103 (ConfirmMatch 1)"

definition scenario_confirmed :: contract where
  "scenario_confirmed = transact scenario_half_confirmed scenario_tenant 104 (ConfirmMatch 1)"

definition scenario_paused :: contract where
  "scenario_paused = transact scenario_matched 4 105 Pause"

text \<open>A second scenario, in which one identity is both parties: the landlord of the first
  scenario's listing also files the request, matches the two and confirms.\<close>

definition selfmatch_requested :: contract where
  "selfmatch_requested =
     transact scenario_listed scenario_landlord 101 (CreateRequest 2500 2 12345 1)"

definition selfmatch_matched :: contract where
  "selfmatch_matched = transact selfmatch_requested scenario_landlord 102 (CreateMatch 1 1)"

definition selfmatch_confirmed :: contract where
  "selfmatch_confirmed = transact selfmatch_matched scenario_landlord 103 (ConfirmMatch 1)"

section \<open>Properties of the gateway client\<close>

subsection \<open>Byte packing\<close>

lemma and_255_mod: "and (t::int) 0xFF = t mod 256"
proof -
  have "and t (mask 8) = take_bit 8 t" by (simp only: take_bit_eq_mask)
  then show ?thesis by (simp add: take_bit_eq_mod mask_eq_exp_minus_1)
qed

lemma drop_bit_8_div: "drop_bit 8 (t::int) = t div 256"
  by (simp add: drop_bit_eq_div)

text \<open>After \<open>i\<close> rounds the loop has written the first \<open>i\<close> bytes; what it still writes is
  the encoding of what is left of the value.\<close>

lemma valueToBytes_loop_eq:
  "length bytes = byteLength \<Longrightarrow> i \<le> byteLength \<Longrightarrow>
   valueToBytes_loop i byteLength t bytes = take i bytes @ spec_le_encode (byteLength - i) t"
proof (induction i byteLength t bytes rule: valueToBytes_loop.induct)
  case (1 i byteLength tempValue bytes)
  show ?case
  proof (cases "i < byteLength")
    case True
    let ?b = "word_of_int (and tempValue 0xFF) :: 8 word"
    have len: "length (bytes[i := ?b]) = byteLength" using "1.prems" by simp
    have ih: "valueToBytes_loop (i + 1) byteLength (drop_bit 8 tempValue) (bytes[i := ?b]) =
              take (i + 1) (bytes[i := ?b])
                @ spec_le_encode (byteLength - (i + 1)) (drop_bit 8 tempValue)"
      using "1.IH" [OF True len] True by simp
    have tk: "take (i + 1) (bytes[i := ?b]) = take i bytes @ [?b]"
      using True "1.prems" by (simp add: take_Suc_conv_app_nth)
    have sp: "byteLength - i = Suc (byteLength - (i + 1))" using True by simp
    show ?thesis
      using True ih tk
      by (subst valueToBytes_loop.simps) (simp add: sp and_255_mod drop_bit_8_div)
  next
    case False
    then show ?thesis using "1.prems"
      by (subst valueToBytes_loop.simps) simp
  qed
qed





lemma valueToBytes_uint:
  "t \<noteq> Ebool \<Longrightarrow> toBigInt v = Inr n \<Longrightarrow>
   valueToBytes v t = Inr (spec_le_encode (getByteLengthForType t) n)"
  by (simp add: valueToBytes_def Let_def valueToBytes_loop_eq)



subsection \<open>Validation\<close>

text \<open>The four types that \<open>validateInput\<close> range-checks reject every value outside their
  range, with the validation error.\<close>

lemma encrypt_narrow_out_of_range:
  assumes "t \<in> {Euint8, Euint16, Euint32, Euint64}" and "toBigInt v = Inr n"
    and "\<not> in_range n t"
  shows "encrypt v t cfg = Inl (Error (''Invalid input for type '' @ type_name t))"
  using assms by (auto simp: encrypt_def in_range_def)

text \<open>
  Claim C2. A value outside the range of its unsigned-integer type is to be refused with
  a validation error. For the 128-bit and the 256-bit type the switch of \<open>validateInput\<close>
  has no case, so the value is accepted and \<open>valueToBytes\<close> keeps its low bytes only:
  \<open>2 ^ 128\<close> as \<open>euint128\<close> is encrypted as sixteen zero bytes, and \<open>-1\<close> as \<open>euint256\<close>
  as thirty-two bytes \<open>ff\<close>.
\<close>

theorem encrypt_wide_out_of_range_accepted:
  "\<not> in_range (2 ^ 128) Euint128
   \<and> encrypt (JSBigInt (2 ^ 128)) Euint128 cfg
       = Inr \<lparr>ciphertext = ''0x'' @ concat (replicate 16 ''00'') @ ''euint128'',
              ev_type = Euint128\<rparr>
   \<and> \<not> in_range (- 1) Euint256
   \<and> encrypt (JSBigInt (- 1)) Euint256 cfg
       = Inr \<lparr>ciphertext = ''0x'' @ concat (replicate 32 ''ff'') @ ''euint256'',
              ev_type = Euint256\<rparr>"
proof -
  have w1: "spec_le_encode 16 (2 ^ 128) = replicate 16 0"
    by code_simp
  have w2: "spec_le_encode 32 (- 1) = replicate 32 255"
    by code_simp
  have w3: "performEncryption (replicate 16 0) Euint128 cfg
              = ''0x'' @ concat (replicate 16 ''00'') @ ''euint128''"
    by (simp add: performEncryption_def padStart_def toString16_def hexDigit_def)
  have w4: "performEncryption (replicate 32 255) Euint256 cfg
              = ''0x'' @ concat (replicate 32 ''ff'') @ ''euint256''"
    by (simp add: performEncryption_def padStart_def toString16_def hexDigit_def)
  have a: "\<not> in_range (2 ^ 128) Euint128" by (simp add: in_range_def)
  have b: "\<not> in_range (- 1) Euint256" by (simp add: in_range_def)
  have c0: "valueToBytes (JSBigInt (2 ^ 128)) Euint128
       = Inr (spec_le_encode (getByteLengthForType Euint128) (2 ^ 128))"
    by (rule valueToBytes_uint) simp_all
  have c: "valueToBytes (JSBigInt (2 ^ 128)) Euint128 = Inr (replicate 16 0)"
    using c0 by (simp only: getByteLengthForType.simps w1)
  have d0: "valueToBytes (JSBigInt (- 1)) Euint256
       = Inr (spec_le_encode (getByteLengthForType Euint256) (- 1))"
    by (rule valueToBytes_uint) simp_all
  have d: "valueToBytes (JSBigInt (- 1)) Euint256 = Inr (replicate 32 255)"
    using d0 by (simp only: getByteLengthForType.simps w2)
  have g: "validateInput (JSBigInt (2 ^ 128)) Euint128 = Inr True"
    by simp
  have h: "validateInput (JSBigInt (- 1)) Euint256 = Inr True"
    by simp
  have e: "encrypt (JSBigInt (2 ^ 128)) Euint128 cfg
       = Inr \<lparr>ciphertext = ''0x'' @ concat (replicate 16 ''00'') @ ''euint128'',
              ev_type = Euint128\<rparr>"
    unfolding encrypt_def by (simp only: g c w3 sum.case bool.case)
  have f: "encrypt (JSBigInt (- 1)) Euint256 cfg
       = Inr \<lparr>ciphertext = ''0x'' @ concat (replicate 32 ''ff'') @ ''euint256'',
              ev_type = Euint256\<rparr>"
    unfolding encrypt_def by (simp only: h d w4 sum.case bool.case)
  show ?thesis using a b e f by blast
qed

subsection \<open>The registry\<close>

lemma ready_after_success:
  assumes "initFhevm fetch cfg s = (Inr r, s1)"
  shows "ready_singleton s1 = Some r"
proof (cases "ready_singleton s")
  case (Some r0)
  then show ?thesis using assms by (simp add: initFhevm_def)
next
  case None
  then show ?thesis using assms
    by (auto simp: initFhevm_def Let_def ready_singleton_def nth_append split: sum.splits)
qed

text \<open>
  Claim C7. When a ready singleton exists, \<open>initFhevm\<close> returns its reference and leaves
  the state as it is, whatever the configuration and the gateway; so after one successful
  call, the next call returns the same reference, and that client is the registered one
  and is ready.
\<close>

theorem initFhevm_idempotent:
  "(ready_singleton s = Some r \<longrightarrow> initFhevm fetch cfg s = (Inr r, s))
   \<and> (initFhevm fetch1 cfg1 s0 = (Inr r1, s1) \<longrightarrow>
        initFhevm fetch2 cfg2 s1 = (Inr r1, s1)
        \<and> getFhevmClient s1 = Some r1
        \<and> r1 < length (heap s1) \<and> isInitialized (heap s1 ! r1))"
proof (intro conjI impI)
  assume "ready_singleton s = Some r"
  then show "initFhevm fetch cfg s = (Inr r, s)" by (simp add: initFhevm_def)
next
  assume a: "initFhevm fetch1 cfg1 s0 = (Inr r1, s1)"
  then have rs: "ready_singleton s1 = Some r1" by (rule ready_after_success)
  then show "initFhevm fetch2 cfg2 s1 = (Inr r1, s1)" by (simp add: initFhevm_def)
  from rs show "getFhevmClient s1 = Some r1"
    by (auto simp: ready_singleton_def getFhevmClient_def split: option.splits if_splits)
  from rs show "r1 < length (heap s1)"
    by (auto simp: ready_singleton_def split: option.splits if_splits)
  from rs show "isInitialized (heap s1 ! r1)"
    by (auto simp: ready_singleton_def split: option.splits if_splits)
qed

theorem initFhevm_idempotent_witness:
  "initFhevm reachable_gateway example_config initial_sdk_state
     = (Inr 0, \<lparr>heap = [\<lparr>config = example_config, isInitialized = True\<rparr>],
                globalInstance = Some 0\<rparr>)
   \<and> ready_singleton \<lparr>heap = [\<lparr>config = example_config, isInitialized = True\<rparr>],
                       globalInstance = Some 0\<rparr> = Some 0
   \<and> initFhevm unreachable_gateway (example_config\<lparr>network := Mainnet\<rparr>)
        \<lparr>heap = [\<lparr>config = example_config, isInitialized = True\<rparr>], globalInstance = Some 0\<rparr>
     = (Inr 0, \<lparr>heap = [\<lparr>config = example_config, isInitialized = True\<rparr>],
                globalInstance = Some 0\<rparr>)"
proof -
  let ?ready = "\<lparr>heap = [\<lparr>config = example_config, isInitialized = True\<rparr>],
                 globalInstance = Some 0\<rparr>"
  have first: "initFhevm reachable_gateway example_config initial_sdk_state = (Inr 0, ?ready)"
    by (simp add: initFhevm_def ready_singleton_def initial_sdk_state_def
        testGatewayConnection_def reachable_gateway_def Let_def)
  have rs: "ready_singleton ?ready = Some 0"
    by (simp add: ready_singleton_def)
  show ?thesis
    using initFhevm_idempotent [of ?ready 0 unreachable_gateway
        "example_config\<lparr>network := Mainnet\<rparr>" reachable_gateway example_config
        initial_sdk_state 0 ?ready unreachable_gateway "example_config\<lparr>network := Mainnet\<rparr>"]
      first rs
    by simp
qed

text \<open>
  Claim C10. When the health probe fails, a call of \<open>initFhevm\<close> leaves the registry as
  it was: \<open>getFhevmClient\<close> returns what it returned before, every client that existed
  is unchanged, and no client has become ready or stopped being ready. The call that ran
  the probe (no ready singleton) rejects with the initialization error.
\<close>

theorem initFhevm_failed_probe:
  assumes "testGatewayConnection fetch (gatewayUrl cfg) = Inl e"
  shows "getFhevmClient (snd (initFhevm fetch cfg s)) = getFhevmClient s
         \<and> ready_singleton (snd (initFhevm fetch cfg s)) = ready_singleton s
         \<and> take (length (heap s)) (heap (snd (initFhevm fetch cfg s))) = heap s
         \<and> fst (initFhevm fetch cfg s) =
             (case ready_singleton s of
                Some r \<Rightarrow> Inr r
              | None \<Rightarrow>
                  Inl (Error (''Failed to initialize FHEVM SDK: Error: Cannot connect to Gateway at ''
                              @ gatewayUrl cfg)))"
proof (cases "ready_singleton s")
  case (Some r)
  then show ?thesis by (simp add: initFhevm_def)
next
  case None
  have e: "e = Error (''Cannot connect to Gateway at '' @ gatewayUrl cfg)"
    using assms by (auto simp: testGatewayConnection_def split: fetch_result.splits if_splits)
  show ?thesis using None assms e
    by (auto simp: initFhevm_def Let_def getFhevmClient_def ready_singleton_def nth_append
        split: option.splits)
qed

theorem initFhevm_failed_probe_witness:
  "testGatewayConnection unreachable_gateway (gatewayUrl example_config)
     = Inl (Error ''Cannot connect to Gateway at https://gateway.example'')
   \<and> initFhevm unreachable_gateway example_config initial_sdk_state
     = (Inl (Error ''Failed to initialize FHEVM SDK: Error: Cannot connect to Gateway at https://gateway.example''),
        \<lparr>heap = [\<lparr>config = example_config, isInitialized = False\<rparr>], globalInstance = None\<rparr>)
   \<and> getFhevmClient (snd (initFhevm unreachable_gateway example_config initial_sdk_state)) = None"
  using initFhevm_failed_probe [of unreachable_gateway example_config
      "Error ''Cannot connect to Gateway at https://gateway.example''" initial_sdk_state]
  by (simp add: testGatewayConnection_def unreachable_gateway_def example_config_def
      initFhevm_def ready_singleton_def initial_sdk_state_def getFhevmClient_def Let_def)

section \<open>Properties of the framework adapter\<close>

text \<open>
  Claim C8. The status hook is to throw when used outside the provider's subtree, and to
  read the published value inside it. With no provider above, \<open>useContext\<close> gives the
  default object of \<open>createContext\<close>, which is not \<open>null\<close>: the test \<open>!context\<close> is false,
  nothing is thrown, and the hook returns the default (no client, not initialized, not
  initializing, no error). Below a provider it returns the provider's value.
\<close>

theorem useFhevm_outside_provider:
  "useFhevmContext [] =
     Inr \<lparr>cv_client = None, cv_isInitialized = False, cv_isInitializing = False,
          cv_error = None\<rparr>
   \<and> useFhevm [] =
     Inr \<lparr>ur_client = None, ur_isInitialized = False, ur_isInitializing = False,
          ur_error = None\<rparr>
   \<and> (\<forall>v above. useFhevmContext (Some v # above) = Inr v)
   \<and> (\<forall>v above. useFhevm (Some v # above) =
        Inr \<lparr>ur_client = cv_client v, ur_isInitialized = cv_isInitialized v,
             ur_isInitializing = cv_isInitializing v, ur_error = cv_error v\<rparr>)"
  by (simp add: useFhevm_def useFhevmContext_def useContext_def FhevmContext_default_def)


section \<open>Properties of the matching contract\<close>

subsection \<open>What a successful call has done\<close>

lemma createListing_Inr:
  assumes "createListing s a t p b z k = Inr s'"
  shows "s' = s\<lparr>listings := (listings s)(listingIdCounter s :=
                    \<lparr>encryptedPrice = p, encryptedBedrooms = b,
                     encryptedPostalCode = z, encryptedPropertyType = k,
                     l_isActive = True, landlord = a, l_timestamp = t,
                     l_isMatched = False\<rparr>),
                  userListings := (userListings s)(a :=
                    userListings s a @ [listingIdCounter s]),
                  events := events s @ [ListingCreated (listingIdCounter s) a],
                  listingIdCounter := listingIdCounter s + 1\<rparr>"
    and "\<not> isPaused s" and "0 < p" and "0 < b" and "b \<le> 10" and "1 \<le> k" and "k \<le> 3"
    and "listingIdCounter s < MAX_UINT256"
  using assms unfolding createListing_def by (simp_all split: if_splits)

lemma createRequest_Inr:
  assumes "createRequest s a t p b z k = Inr s'"
  shows "s' = s\<lparr>requests := (requests s)(requestIdCounter s :=
                    \<lparr>encryptedMaxBudget = p, encryptedMinBedrooms = b,
                     encryptedPreferredPostalCode = z,
                     encryptedPreferredPropertyType = k,
                     r_isActive = True, tenant = a, r_timestamp = t,
                     r_isMatched = False\<rparr>),
                  userRequests := (userRequests s)(a :=
                    userRequests s a @ [requestIdCounter s]),
                  events := events s @ [RequestCreated (requestIdCounter s) a],
                  requestIdCounter := requestIdCounter s + 1\<rparr>"
    and "\<not> isPaused s" and "0 < p" and "0 < b" and "b \<le> 10" and "1 \<le> k" and "k \<le> 3"
    and "requestIdCounter s < MAX_UINT256"
  using assms unfolding createRequest_def by (simp_all split: if_splits)

lemma createMatch_Inr:
  assumes "createMatch s a t lid rid = Inr s'"
  shows "s' = s\<lparr>matches := (matches s)(matchCounter s :=
                    \<lparr>listingId = lid, requestId = rid,
                     m_landlord = landlord (listings s lid),
                     m_tenant = tenant (requests s rid), m_timestamp = t,
                     isConfirmed = False, landlordConfirmed = False,
                     tenantConfirmed = False\<rparr>),
                  listings := (listings s)(lid := (listings s lid)\<lparr>l_isMatched := True\<rparr>),
                  requests := (requests s)(rid := (requests s rid)\<lparr>r_isMatched := True\<rparr>),
                  events := events s @ [MatchCreated (matchCounter s) lid rid],
                  matchCounter := matchCounter s + 1\<rparr>"
    and "\<not> isPaused s"
    and "l_isActive (listings s lid)" and "r_isActive (requests s rid)"
    and "\<not> l_isMatched (listings s lid)" and "\<not> r_isMatched (requests s rid)"
    and "a = landlord (listings s lid) \<or> a = tenant (requests s rid)"
    and "matchCounter s < MAX_UINT256"
  using assms unfolding createMatch_def by (simp_all split: if_splits)

lemma confirmMatch_Inr:
  assumes "confirmMatch s a mid = Inr s'"
  shows "\<not> isPaused s" and "m_landlord (matches s mid) \<noteq> 0"
    and "\<not> isConfirmed (matches s mid)"
    and "(a = m_landlord (matches s mid) \<and> \<not> landlordConfirmed (matches s mid)
          \<and> s' = s\<lparr>matches := (matches s)(mid :=
                      (if tenantConfirmed (matches s mid)
                       then (matches s mid)\<lparr>landlordConfirmed := True, isConfirmed := True\<rparr>
                       else (matches s mid)\<lparr>landlordConfirmed := True\<rparr>)),
                    events := events s @ [MatchConfirmed mid a]\<rparr>)
         \<or> (a \<noteq> m_landlord (matches s mid) \<and> a = m_tenant (matches s mid)
          \<and> \<not> tenantConfirmed (matches s mid)
          \<and> s' = s\<lparr>matches := (matches s)(mid :=
                      (if landlordConfirmed (matches s mid)
                       then (matches s mid)\<lparr>tenantConfirmed := True, isConfirmed := True\<rparr>
                       else (matches s mid)\<lparr>tenantConfirmed := True\<rparr>)),
                    events := events s @ [MatchConfirmed mid a]\<rparr>)"
  using assms unfolding confirmMatch_def by (simp_all split: if_splits)

lemma admin_Inr:
  "pause s a = Inr s' \<Longrightarrow> s' = s\<lparr>isPaused := True\<rparr>"
  "unpause s a = Inr s' \<Longrightarrow> s' = s\<lparr>isPaused := False\<rparr>"
  "addPauser s a x = Inr s' \<Longrightarrow>
     s' = s\<lparr>pauserAddresses := pauserAddresses s @ [x],
            isPauserAddress := (isPauserAddress s)(x := True)\<rparr>"
  "removePauser s a x = Inr s' \<Longrightarrow>
     s' = s\<lparr>pauserAddresses := removeAll x (pauserAddresses s),
            isPauserAddress := (isPauserAddress s)(x := False)\<rparr>"
  "deactivateListing s a lid = Inr s' \<Longrightarrow>
     s' = s\<lparr>listings := (listings s)(lid := (listings s lid)\<lparr>l_isActive := False\<rparr>)\<rparr>"
  "cancelRequest s a rid = Inr s' \<Longrightarrow>
     s' = s\<lparr>requests := (requests s)(rid := (requests s rid)\<lparr>r_isActive := False\<rparr>)\<rparr>"
  unfolding pause_def unpause_def addPauser_def removePauser_def deactivateListing_def
    cancelRequest_def
  by (simp_all split: if_splits)

subsection \<open>The invariants hold in every reachable state\<close>

lemma count_list_snoc: "count_list (xs @ [x]) y = count_list xs y + (if x = y then 1 else 0)"
  by (induction xs) auto

lemma constructor_fields:
  "listingIdCounter (constructor d ps k) = 1"
  "requestIdCounter (constructor d ps k) = 1"
  "matchCounter (constructor d ps k) = 1"
  "listings (constructor d ps k) = (\<lambda>_. zero_listing)"
  "requests (constructor d ps k) = (\<lambda>_. zero_request)"
  "matches (constructor d ps k) = (\<lambda>_. zero_match)"
  "events (constructor d ps k) = []"
  "isPaused (constructor d ps k) = False"
  "owner (constructor d ps k) = d"
proof -
  let ?f = "\<lambda>s a. s\<lparr>pauserAddresses := pauserAddresses s @ [a],
                     isPauserAddress := (isPauserAddress s)(a := True)\<rparr>"
  have keep: "listingIdCounter (foldl ?f s ps) = listingIdCounter s
      \<and> requestIdCounter (foldl ?f s ps) = requestIdCounter s
      \<and> matchCounter (foldl ?f s ps) = matchCounter s
      \<and> listings (foldl ?f s ps) = listings s
      \<and> requests (foldl ?f s ps) = requests s
      \<and> matches (foldl ?f s ps) = matches s
      \<and> events (foldl ?f s ps) = events s
      \<and> isPaused (foldl ?f s ps) = isPaused s
      \<and> owner (foldl ?f s ps) = owner s" for s :: contract
    by (induction ps arbitrary: s) simp_all
  show "listingIdCounter (constructor d ps k) = 1"
    "requestIdCounter (constructor d ps k) = 1"
    "matchCounter (constructor d ps k) = 1"
    "listings (constructor d ps k) = (\<lambda>_. zero_listing)"
    "requests (constructor d ps k) = (\<lambda>_. zero_request)"
    "matches (constructor d ps k) = (\<lambda>_. zero_match)"
    "events (constructor d ps k) = []"
    "isPaused (constructor d ps k) = False"
    "owner (constructor d ps k) = d"
    unfolding constructor_def by (simp_all add: keep)
qed

lemma issued_inv_constructor: "issued_inv (constructor d ps k)"
  by (simp add: issued_inv_def constructor_fields)

lemma confirm_inv_constructor: "confirm_inv (constructor d ps k)"
  by (simp add: confirm_inv_def constructor_fields zero_match_def)

lemma issued_inv_createListing:
  assumes "issued_inv s" and "createListing s a t p b z k = Inr s'"
  shows "issued_inv s'"
  using assms(1) unfolding createListing_Inr(1) [OF assms(2)] issued_inv_def
  by auto

lemma issued_inv_createRequest:
  assumes "issued_inv s" and "createRequest s a t p b z k = Inr s'"
  shows "issued_inv s'"
  using assms(1) unfolding createRequest_Inr(1) [OF assms(2)] issued_inv_def
  by auto

lemma issued_inv_createMatch:
  assumes "issued_inv s" and "createMatch s a t lid rid = Inr s'"
  shows "issued_inv s'"
proof -
  have l: "listings s lid \<noteq> zero_listing" using createMatch_Inr(3) [OF assms(2)]
    by (auto simp: zero_listing_def)
  have r: "requests s rid \<noteq> zero_request" using createMatch_Inr(4) [OF assms(2)]
    by (auto simp: zero_request_def)
  show ?thesis
    using assms(1) l r unfolding createMatch_Inr(1) [OF assms(2)] issued_inv_def
    by auto
qed

lemma issued_inv_confirmMatch:
  assumes "issued_inv s" and "confirmMatch s a mid = Inr s'"
  shows "issued_inv s'"
proof -
  have m: "matches s mid \<noteq> zero_match" using confirmMatch_Inr(2) [OF assms(2)]
    by (auto simp: zero_match_def)
  from confirmMatch_Inr(4) [OF assms(2)] show ?thesis
  proof (elim disjE conjE)
    assume "s' = s\<lparr>matches := (matches s)(mid :=
                      (if tenantConfirmed (matches s mid)
                       then (matches s mid)\<lparr>landlordConfirmed := True, isConfirmed := True\<rparr>
                       else (matches s mid)\<lparr>landlordConfirmed := True\<rparr>)),
                    events := events s @ [MatchConfirmed mid a]\<rparr>"
    then show ?thesis using assms(1) m unfolding issued_inv_def by auto
  next
    assume "s' = s\<lparr>matches := (matches s)(mid :=
                      (if landlordConfirmed (matches s mid)
                       then (matches s mid)\<lparr>tenantConfirmed := True, isConfirmed := True\<rparr>
                       else (matches s mid)\<lparr>tenantConfirmed := True\<rparr>)),
                    events := events s @ [MatchConfirmed mid a]\<rparr>"
    then show ?thesis using assms(1) m unfolding issued_inv_def by auto
  qed
qed

lemma issued_inv_admin:
  "issued_inv s \<Longrightarrow> pause s a = Inr s' \<Longrightarrow> issued_inv s'"
  "issued_inv s \<Longrightarrow> unpause s a = Inr s' \<Longrightarrow> issued_inv s'"
  "issued_inv s \<Longrightarrow> addPauser s a x = Inr s' \<Longrightarrow> issued_inv s'"
  "issued_inv s \<Longrightarrow> removePauser s a x = Inr s' \<Longrightarrow> issued_inv s'"
  by (auto dest!: admin_Inr simp: issued_inv_def)

lemma issued_inv_deactivateListing:
  assumes "issued_inv s" and "deactivateListing s a lid = Inr s'"
  shows "issued_inv s'"
  using assms(1) unfolding admin_Inr(5) [OF assms(2)] issued_inv_def
  by (auto simp: zero_listing_def)

lemma issued_inv_cancelRequest:
  assumes "issued_inv s" and "cancelRequest s a rid = Inr s'"
  shows "issued_inv s'"
  using assms(1) unfolding admin_Inr(6) [OF assms(2)] issued_inv_def
  by (auto simp: zero_request_def)

lemma issued_inv_transact:
  assumes "issued_inv s"
  shows "issued_inv (transact s a t c)"
proof (cases "call_result s a t c")
  case (Inl r)
  then show ?thesis using assms by (simp add: transact_def)
next
  case (Inr s')
  then have "issued_inv s'" using assms
    by (cases c)
      (auto intro: issued_inv_createListing issued_inv_createRequest issued_inv_createMatch
        issued_inv_confirmMatch issued_inv_admin issued_inv_deactivateListing
        issued_inv_cancelRequest)
  then show ?thesis using Inr by (simp add: transact_def)
qed

lemma reachable_issued_inv: "reachable s \<Longrightarrow> issued_inv s"
  by (induction rule: reachable.induct) (auto intro: issued_inv_constructor issued_inv_transact)

lemma confirm_inv_createListing:
  assumes "confirm_inv s" and "createListing s a t p b z k = Inr s'"
  shows "confirm_inv s'"
  using assms(1) unfolding createListing_Inr(1) [OF assms(2)] confirm_inv_def
  by (simp add: count_list_snoc)

lemma confirm_inv_createRequest:
  assumes "confirm_inv s" and "createRequest s a t p b z k = Inr s'"
  shows "confirm_inv s'"
  using assms(1) unfolding createRequest_Inr(1) [OF assms(2)] confirm_inv_def
  by (simp add: count_list_snoc)

lemma confirm_inv_createMatch:
  assumes "confirm_inv s" and "issued_inv s" and "createMatch s a t lid rid = Inr s'"
  shows "confirm_inv s'"
proof -
  have z: "matches s (matchCounter s) = zero_match"
    using assms(2) by (simp add: issued_inv_def)
  have c: "count_list (events s) (MatchConfirmed (matchCounter s) x) = 0" for x
    using assms(1) z by (simp add: confirm_inv_def zero_match_def)
  show ?thesis
    using assms(1) c unfolding createMatch_Inr(1) [OF assms(3)] confirm_inv_def
    by (simp add: count_list_snoc)
qed

lemma confirm_inv_confirmMatch:
  assumes "confirm_inv s" and "confirmMatch s a mid = Inr s'"
  shows "confirm_inv s'"
proof -
  have nc: "\<not> isConfirmed (matches s mid)" by (rule confirmMatch_Inr(3) [OF assms(2)])
  from confirmMatch_Inr(4) [OF assms(2)] show ?thesis
  proof (elim disjE conjE)
    assume a: "a = m_landlord (matches s mid)" and l: "\<not> landlordConfirmed (matches s mid)"
      and s': "s' = s\<lparr>matches := (matches s)(mid :=
                      (if tenantConfirmed (matches s mid)
                       then (matches s mid)\<lparr>landlordConfirmed := True, isConfirmed := True\<rparr>
                       else (matches s mid)\<lparr>landlordConfirmed := True\<rparr>)),
                    events := events s @ [MatchConfirmed mid a]\<rparr>"
    show ?thesis
      using assms(1) a l nc unfolding s' confirm_inv_def
      by (simp add: count_list_snoc)
  next
    assume a: "a \<noteq> m_landlord (matches s mid)" "a = m_tenant (matches s mid)"
      and l: "\<not> tenantConfirmed (matches s mid)"
      and s': "s' = s\<lparr>matches := (matches s)(mid :=
                      (if landlordConfirmed (matches s mid)
                       then (matches s mid)\<lparr>tenantConfirmed := True, isConfirmed := True\<rparr>
                       else (matches s mid)\<lparr>tenantConfirmed := True\<rparr>)),
                    events := events s @ [MatchConfirmed mid a]\<rparr>"
    show ?thesis
      using assms(1) a l nc unfolding s' confirm_inv_def
      by (simp add: count_list_snoc)
  qed
qed

lemma confirm_inv_other:
  "confirm_inv s \<Longrightarrow> pause s a = Inr s' \<Longrightarrow> confirm_inv s'"
  "confirm_inv s \<Longrightarrow> unpause s a = Inr s' \<Longrightarrow> confirm_inv s'"
  "confirm_inv s \<Longrightarrow> addPauser s a x = Inr s' \<Longrightarrow> confirm_inv s'"
  "confirm_inv s \<Longrightarrow> removePauser s a x = Inr s' \<Longrightarrow> confirm_inv s'"
  "confirm_inv s \<Longrightarrow> deactivateListing s a n = Inr s' \<Longrightarrow> confirm_inv s'"
  "confirm_inv s \<Longrightarrow> cancelRequest s a n = Inr s' \<Longrightarrow> confirm_inv s'"
  by (auto dest!: admin_Inr simp: confirm_inv_def)

lemma confirm_inv_transact:
  assumes "confirm_inv s" and "issued_inv s"
  shows "confirm_inv (transact s a t c)"
proof (cases "call_result s a t c")
  case (Inl r)
  then show ?thesis using assms by (simp add: transact_def)
next
  case (Inr s')
  then have "confirm_inv s'" using assms
    by (cases c)
      (auto intro: confirm_inv_createListing confirm_inv_createRequest confirm_inv_createMatch
        confirm_inv_confirmMatch confirm_inv_other)
  then show ?thesis using Inr by (simp add: transact_def)
qed

lemma reachable_confirm_inv: "reachable s \<Longrightarrow> confirm_inv s"
proof (induction rule: reachable.induct)
  case (deployed sender pausers kms)
  show ?case by (rule confirm_inv_constructor)
next
  case (transacted s sender now c)
  then show ?case by (simp add: confirm_inv_transact reachable_issued_inv)
qed

subsection \<open>What later states keep\<close>

lemma match_kept_refl: "mid < matchCounter s \<Longrightarrow> match_kept mid s s"
  by (simp add: match_kept_def)

lemma match_kept_trans:
  "match_kept mid s s' \<Longrightarrow> match_kept mid s' s'' \<Longrightarrow> match_kept mid s s''"
  by (simp add: match_kept_def)

lemma match_kept_call:
  assumes "mid < matchCounter s" and "call_result s a t c = Inr s'"
  shows "match_kept mid s s'"
proof (cases c)
  case (CreateListing p b z k)
  then have "createListing s a t p b z k = Inr s'" using assms(2) by simp
  from createListing_Inr(1) [OF this] show ?thesis using assms(1) by (simp add: match_kept_def)
next
  case (CreateRequest p b z k)
  then have "createRequest s a t p b z k = Inr s'" using assms(2) by simp
  from createRequest_Inr(1) [OF this] show ?thesis using assms(1) by (simp add: match_kept_def)
next
  case (CreateMatch lid rid)
  then have "createMatch s a t lid rid = Inr s'" using assms(2) by simp
  from createMatch_Inr(1) [OF this] show ?thesis using assms(1) by (simp add: match_kept_def)
next
  case (ConfirmMatch m)
  then have e: "confirmMatch s a m = Inr s'" using assms(2) by simp
  from confirmMatch_Inr(4) [OF e] confirmMatch_Inr(3) [OF e] show ?thesis using assms(1)
    by (auto simp: match_kept_def)
next
  case Pause
  then show ?thesis using assms by (auto dest!: admin_Inr simp: match_kept_def)
next
  case Unpause
  then show ?thesis using assms by (auto dest!: admin_Inr simp: match_kept_def)
next
  case (AddPauser x)
  then show ?thesis using assms by (auto dest!: admin_Inr simp: match_kept_def)
next
  case (RemovePauser x)
  then show ?thesis using assms by (auto dest!: admin_Inr simp: match_kept_def)
next
  case (DeactivateListing n)
  then show ?thesis using assms by (auto dest!: admin_Inr simp: match_kept_def)
next
  case (CancelRequest n)
  then show ?thesis using assms by (auto dest!: admin_Inr simp: match_kept_def)
qed

lemma match_kept_transact:
  assumes "mid < matchCounter s"
  shows "match_kept mid s (transact s a t c)"
proof (cases "call_result s a t c")
  case (Inl r)
  then show ?thesis using assms by (simp add: transact_def match_kept_refl)
next
  case (Inr s')
  then show ?thesis using match_kept_call [OF assms Inr] by (simp add: transact_def)
qed

lemma match_kept_later:
  assumes "later s s'" and "mid < matchCounter s"
  shows "match_kept mid s s'"
  using assms
proof (induction rule: later.induct)
  case (same s)
  then show ?case by (rule match_kept_refl)
next
  case (after s s' sender now c)
  then have k: "match_kept mid s s'" by simp
  then have "mid < matchCounter s'" by (simp add: match_kept_def)
  then have "match_kept mid s' (transact s' sender now c)" by (rule match_kept_transact)
  with k show ?case by (rule match_kept_trans)
qed

lemma reachable_later: "later s s' \<Longrightarrow> reachable s \<Longrightarrow> reachable s'"
  by (induction rule: later.induct) (auto intro: reachable.transacted)

lemma issued_match: "issued_inv s \<Longrightarrow> matches s mid \<noteq> zero_match \<Longrightarrow> mid < matchCounter s"
  by (cases "matchCounter s \<le> mid") (auto simp: issued_inv_def)

lemma createMatch_matched_listing_fails:
  "l_isMatched (listings s lid) \<Longrightarrow> \<exists>r. createMatch s a t lid rid = Inl (Reason r)"
  unfolding createMatch_def by auto

lemma createMatch_matched_request_fails:
  "r_isMatched (requests s rid) \<Longrightarrow> \<exists>r. createMatch s a t lid rid = Inl (Reason r)"
  unfolding createMatch_def by auto

lemma matched_kept_call:
  assumes "call_result s a t c = Inr s'"
  shows "lid < listingIdCounter s \<Longrightarrow> l_isMatched (listings s lid) \<Longrightarrow>
           lid < listingIdCounter s' \<and> l_isMatched (listings s' lid)"
    and "rid < requestIdCounter s \<Longrightarrow> r_isMatched (requests s rid) \<Longrightarrow>
           rid < requestIdCounter s' \<and> r_isMatched (requests s' rid)"
proof -
  have "(lid < listingIdCounter s \<longrightarrow> l_isMatched (listings s lid) \<longrightarrow>
           lid < listingIdCounter s' \<and> l_isMatched (listings s' lid))
      \<and> (rid < requestIdCounter s \<longrightarrow> r_isMatched (requests s rid) \<longrightarrow>
           rid < requestIdCounter s' \<and> r_isMatched (requests s' rid))"
  proof (cases c)
    case (CreateListing p b z k)
    then have "createListing s a t p b z k = Inr s'" using assms by simp
    from createListing_Inr(1) [OF this] show ?thesis by simp
  next
    case (CreateRequest p b z k)
    then have "createRequest s a t p b z k = Inr s'" using assms by simp
    from createRequest_Inr(1) [OF this] show ?thesis by simp
  next
    case (CreateMatch l r)
    then have "createMatch s a t l r = Inr s'" using assms by simp
    from createMatch_Inr(1) [OF this] show ?thesis by simp
  next
    case (ConfirmMatch m)
    then have "confirmMatch s a m = Inr s'" using assms by simp
    from confirmMatch_Inr(4) [OF this] show ?thesis by auto
  next
    case Pause
    then show ?thesis using assms by (auto dest!: admin_Inr)
  next
    case Unpause
    then show ?thesis using assms by (auto dest!: admin_Inr)
  next
    case (AddPauser x)
    then show ?thesis using assms by (auto dest!: admin_Inr)
  next
    case (RemovePauser x)
    then show ?thesis using assms by (auto dest!: admin_Inr)
  next
    case (DeactivateListing n)
    then show ?thesis using assms by (auto dest!: admin_Inr)
  next
    case (CancelRequest n)
    then show ?thesis using assms by (auto dest!: admin_Inr)
  qed
  then show "lid < listingIdCounter s \<Longrightarrow> l_isMatched (listings s lid) \<Longrightarrow>
           lid < listingIdCounter s' \<and> l_isMatched (listings s' lid)"
    and "rid < requestIdCounter s \<Longrightarrow> r_isMatched (requests s rid) \<Longrightarrow>
           rid < requestIdCounter s' \<and> r_isMatched (requests s' rid)"
    by blast+
qed

lemma listing_matched_transact:
  assumes "lid < listingIdCounter s" and "l_isMatched (listings s lid)"
  shows "lid < listingIdCounter (transact s a t c) \<and> l_isMatched (listings (transact s a t c) lid)"
proof (cases "call_result s a t c")
  case (Inl r)
  then show ?thesis using assms by (simp add: transact_def)
next
  case (Inr s')
  then show ?thesis using matched_kept_call(1) [OF Inr assms] by (simp add: transact_def)
qed

lemma request_matched_transact:
  assumes "rid < requestIdCounter s" and "r_isMatched (requests s rid)"
  shows "rid < requestIdCounter (transact s a t c) \<and> r_isMatched (requests (transact s a t c) rid)"
proof (cases "call_result s a t c")
  case (Inl r)
  then show ?thesis using assms by (simp add: transact_def)
next
  case (Inr s')
  then show ?thesis using matched_kept_call(2) [OF Inr assms] by (simp add: transact_def)
qed

lemma listing_matched_later:
  assumes "later s s'" and "lid < listingIdCounter s" and "l_isMatched (listings s lid)"
  shows "lid < listingIdCounter s' \<and> l_isMatched (listings s' lid)"
  using assms
proof (induction rule: later.induct)
  case (same s)
  then show ?case by simp
next
  case (after s s' sender now c)
  then have "lid < listingIdCounter s' \<and> l_isMatched (listings s' lid)" by simp
  then show ?case by (simp add: listing_matched_transact)
qed

lemma request_matched_later:
  assumes "later s s'" and "rid < requestIdCounter s" and "r_isMatched (requests s rid)"
  shows "rid < requestIdCounter s' \<and> r_isMatched (requests s' rid)"
  using assms
proof (induction rule: later.induct)
  case (same s)
  then show ?case by simp
next
  case (after s s' sender now c)
  then have "rid < requestIdCounter s' \<and> r_isMatched (requests s' rid)" by simp
  then show ?case by (simp add: request_matched_transact)
qed

lemma issued_listing:
  "issued_inv s \<Longrightarrow> listings s lid \<noteq> zero_listing \<Longrightarrow> listing_exists s lid"
  by (cases "lid = 0 \<or> listingIdCounter s \<le> lid") (auto simp: issued_inv_def listing_exists_def)

lemma issued_request:
  "issued_inv s \<Longrightarrow> requests s rid \<noteq> zero_request \<Longrightarrow> request_exists s rid"
  by (cases "rid = 0 \<or> requestIdCounter s \<le> rid") (auto simp: issued_inv_def request_exists_def)

subsection \<open>The scenario, evaluated\<close>

lemma transact_Inr: "call_result s a t c = Inr s' \<Longrightarrow> transact s a t c = s'"
  by (simp add: transact_def)

lemma scenario_deployed_fields:
  "listingIdCounter scenario_deployed = 1" "requestIdCounter scenario_deployed = 1"
  "matchCounter scenario_deployed = 1" "listings scenario_deployed = (\<lambda>_. zero_listing)"
  "requests scenario_deployed = (\<lambda>_. zero_request)"
  "matches scenario_deployed = (\<lambda>_. zero_match)" "events scenario_deployed = []"
  "isPaused scenario_deployed = False" "isPauserAddress scenario_deployed 4"
  unfolding scenario_deployed_def by (simp_all add: constructor_fields) (simp add: constructor_def)

lemma scenario_listed_fields:
  "listingIdCounter scenario_listed = 2" "requestIdCounter scenario_listed = 1"
  "matchCounter scenario_listed = 1"
  "listings scenario_listed =
     (\<lambda>_. zero_listing)(1 := \<lparr>encryptedPrice = 2000, encryptedBedrooms = 2,
        encryptedPostalCode = 12345, encryptedPropertyType = 1, l_isActive = True,
        landlord = scenario_landlord, l_timestamp = 100, l_isMatched = False\<rparr>)"
  "requests scenario_listed = (\<lambda>_. zero_request)"
  "matches scenario_listed = (\<lambda>_. zero_match)"
  "events scenario_listed = [ListingCreated 1 scenario_landlord]"
  "isPaused scenario_listed = False" "isPauserAddress scenario_listed 4"
proof -
  have "\<exists>s'. createListing scenario_deployed scenario_landlord 100 2000 2 12345 1 = Inr s'"
    by (simp add: createListing_def scenario_deployed_fields MAX_UINT256_def)
  then obtain s' where
    e: "createListing scenario_deployed scenario_landlord 100 2000 2 12345 1 = Inr s'"
    by blast
  have s: "scenario_listed = s'" using e by (simp add: scenario_listed_def transact_Inr)
  show "listingIdCounter scenario_listed = 2" "requestIdCounter scenario_listed = 1"
    "matchCounter scenario_listed = 1"
    "listings scenario_listed =
       (\<lambda>_. zero_listing)(1 := \<lparr>encryptedPrice = 2000, encryptedBedrooms = 2,
          encryptedPostalCode = 12345, encryptedPropertyType = 1, l_isActive = True,
          landlord = scenario_landlord, l_timestamp = 100, l_isMatched = False\<rparr>)"
    "requests scenario_listed = (\<lambda>_. zero_request)"
    "matches scenario_listed = (\<lambda>_. zero_match)"
    "events scenario_listed = [ListingCreated 1 scenario_landlord]"
    "isPaused scenario_listed = False" "isPauserAddress scenario_listed 4"
    unfolding s createListing_Inr(1) [OF e] by (simp_all add: scenario_deployed_fields)
qed

lemma scenario_requested_fields:
  "listingIdCounter scenario_requested = 2" "requestIdCounter scenario_requested = 2"
  "matchCounter scenario_requested = 1"
  "listings scenario_requested = listings scenario_listed"
  "requests scenario_requested =
     (\<lambda>_. zero_request)(1 := \<lparr>encryptedMaxBudget = 2500, encryptedMinBedrooms = 2,
        encryptedPreferredPostalCode = 12345, encryptedPreferredPropertyType = 1,
        r_isActive = True, tenant = scenario_tenant, r_timestamp = 101,
        r_isMatched = False\<rparr>)"
  "matches scenario_requested = (\<lambda>_. zero_match)"
  "events scenario_requested =
     [ListingCreated 1 scenario_landlord, RequestCreated 1 scenario_tenant]"
  "isPaused scenario_requested = False" "isPauserAddress scenario_requested 4"
proof -
  have "\<exists>s'. createRequest scenario_listed scenario_tenant 101 2500 2 12345 1 = Inr s'"
    by (simp add: createRequest_def scenario_listed_fields MAX_UINT256_def)
  then obtain s' where
    e: "createRequest scenario_listed scenario_tenant 101 2500 2 12345 1 = Inr s'"
    by blast
  have s: "scenario_requested = s'" using e by (simp add: scenario_requested_def transact_Inr)
  show "listingIdCounter scenario_requested = 2" "requestIdCounter scenario_requested = 2"
    "matchCounter scenario_requested = 1"
    "listings scenario_requested = listings scenario_listed"
    "requests scenario_requested =
       (\<lambda>_. zero_request)(1 := \<lparr>encryptedMaxBudget = 2500, encryptedMinBedrooms = 2,
          encryptedPreferredPostalCode = 12345, encryptedPreferredPropertyType = 1,
          r_isActive = True, tenant = scenario_tenant, r_timestamp = 101,
          r_isMatched = False\<rparr>)"
    "matches scenario_requested = (\<lambda>_. zero_match)"
    "events scenario_requested =
       [ListingCreated 1 scenario_landlord, RequestCreated 1 scenario_tenant]"
    "isPaused scenario_requested = False" "isPauserAddress scenario_requested 4"
    unfolding s createRequest_Inr(1) [OF e] by (simp_all add: scenario_listed_fields)
qed

lemma scenario_createMatch:
  "\<exists>s'. createMatch scenario_requested scenario_landlord 102 1 1 = Inr s'"
  by (simp add: createMatch_def scenario_requested_fields scenario_listed_fields
      MAX_UINT256_def)

lemma scenario_matched_fields:
  "matchCounter scenario_matched = 2"
  "matches scenario_matched =
     (\<lambda>_. zero_match)(1 := \<lparr>listingId = 1, requestId = 1, m_landlord = scenario_landlord,
        m_tenant = scenario_tenant, m_timestamp = 102, isConfirmed = False,
        landlordConfirmed = False, tenantConfirmed = False\<rparr>)"
  "l_isMatched (listings scenario_matched 1)" "r_isMatched (requests scenario_matched 1)"
  "l_isActive (listings scenario_matched 1)" "r_isActive (requests scenario_matched 1)"
  "landlord (listings scenario_matched 1) = scenario_landlord"
  "tenant (requests scenario_matched 1) = scenario_tenant"
  "events scenario_matched =
     [ListingCreated 1 scenario_landlord, RequestCreated 1 scenario_tenant,
      MatchCreated 1 1 1]"
  "isPaused scenario_matched = False" "isPauserAddress scenario_matched 4"
proof -
  obtain s' where e: "createMatch scenario_requested scenario_landlord 102 1 1 = Inr s'"
    using scenario_createMatch by blast
  have s: "scenario_matched = s'" using e by (simp add: scenario_matched_def transact_Inr)
  show "matchCounter scenario_matched = 2"
    "matches scenario_matched =
       (\<lambda>_. zero_match)(1 := \<lparr>listingId = 1, requestId = 1, m_landlord = scenario_landlord,
          m_tenant = scenario_tenant, m_timestamp = 102, isConfirmed = False,
          landlordConfirmed = False, tenantConfirmed = False\<rparr>)"
    "l_isMatched (listings scenario_matched 1)" "r_isMatched (requests scenario_matched 1)"
    "l_isActive (listings scenario_matched 1)" "r_isActive (requests scenario_matched 1)"
    "landlord (listings scenario_matched 1) = scenario_landlord"
    "tenant (requests scenario_matched 1) = scenario_tenant"
    "events scenario_matched =
       [ListingCreated 1 scenario_landlord, RequestCreated 1 scenario_tenant,
        MatchCreated 1 1 1]"
    "isPaused scenario_matched = False" "isPauserAddress scenario_matched 4"
    unfolding s createMatch_Inr(1) [OF e]
    by (simp_all add: scenario_requested_fields scenario_listed_fields)
qed

lemma scenario_first_confirm:
  "confirmMatch scenario_matched scenario_landlord 1 = Inr scenario_half_confirmed"
proof -
  have "\<exists>s'. confirmMatch scenario_matched scenario_landlord 1 = Inr s'"
    by (simp add: confirmMatch_def scenario_matched_fields scenario_landlord_def
        scenario_tenant_def)
  then obtain s' where e: "confirmMatch scenario_matched scenario_landlord 1 = Inr s'"
    by blast
  then show ?thesis by (simp add: scenario_half_confirmed_def transact_Inr)
qed

lemma scenario_half_confirmed_fields:
  "matchCounter scenario_half_confirmed = 2"
  "matches scenario_half_confirmed =
     (\<lambda>_. zero_match)(1 := \<lparr>listingId = 1, requestId = 1, m_landlord = scenario_landlord,
        m_tenant = scenario_tenant, m_timestamp = 102, isConfirmed = False,
        landlordConfirmed = True, tenantConfirmed = False\<rparr>)"
  "events scenario_half_confirmed =
     [ListingCreated 1 scenario_landlord, RequestCreated 1 scenario_tenant,
      MatchCreated 1 1 1, MatchConfirmed 1 scenario_landlord]"
  "isPaused scenario_half_confirmed = False"
proof -
  have s: "scenario_half_confirmed =
      scenario_matched\<lparr>matches := (matches scenario_matched)(1 :=
          (matches scenario_matched 1)\<lparr>landlordConfirmed := True\<rparr>),
        events := events scenario_matched @ [MatchConfirmed 1 scenario_landlord]\<rparr>"
    using confirmMatch_Inr(4) [OF scenario_first_confirm]
    by (auto simp: scenario_matched_fields scenario_landlord_def scenario_tenant_def)
  show "matchCounter scenario_half_confirmed = 2"
    "matches scenario_half_confirmed =
       (\<lambda>_. zero_match)(1 := \<lparr>listingId = 1, requestId = 1, m_landlord = scenario_landlord,
          m_tenant = scenario_tenant, m_timestamp = 102, isConfirmed = False,
          landlordConfirmed = True, tenantConfirmed = False\<rparr>)"
    "events scenario_half_confirmed =
       [ListingCreated 1 scenario_landlord, RequestCreated 1 scenario_tenant,
        MatchCreated 1 1 1, MatchConfirmed 1 scenario_landlord]"
    "isPaused scenario_half_confirmed = False"
    unfolding s by (simp_all add: scenario_matched_fields)
qed

lemma scenario_second_confirm:
  "confirmMatch scenario_half_confirmed scenario_tenant 1 = Inr scenario_confirmed"
proof -
  have "\<exists>s'. confirmMatch scenario_half_confirmed scenario_tenant 1 = Inr s'"
    by (simp add: confirmMatch_def scenario_half_confirmed_fields scenario_landlord_def
        scenario_tenant_def)
  then obtain s' where e: "confirmMatch scenario_half_confirmed scenario_tenant 1 = Inr s'"
    by blast
  then show ?thesis by (simp add: scenario_confirmed_def transact_Inr)
qed

lemma scenario_confirmed_fields:
  "matchCounter scenario_confirmed = 2"
  "matches scenario_confirmed =
     (\<lambda>_. zero_match)(1 := \<lparr>listingId = 1, requestId = 1, m_landlord = scenario_landlord,
        m_tenant = scenario_tenant, m_timestamp = 102, isConfirmed = True,
        landlordConfirmed = True, tenantConfirmed = True\<rparr>)"
  "events scenario_confirmed =
     [ListingCreated 1 scenario_landlord, RequestCreated 1 scenario_tenant,
      MatchCreated 1 1 1, MatchConfirmed 1 scenario_landlord,
      MatchConfirmed 1 scenario_tenant]"
  "isPaused scenario_confirmed = False"
proof -
  have s: "scenario_confirmed =
      scenario_half_confirmed\<lparr>matches := (matches scenario_half_confirmed)(1 :=
          (matches scenario_half_confirmed 1)\<lparr>tenantConfirmed := True, isConfirmed := True\<rparr>),
        events := events scenario_half_confirmed @ [MatchConfirmed 1 scenario_tenant]\<rparr>"
    using confirmMatch_Inr(4) [OF scenario_second_confirm]
    by (auto simp: scenario_half_confirmed_fields scenario_landlord_def scenario_tenant_def)
  show "matchCounter scenario_confirmed = 2"
    "matches scenario_confirmed =
       (\<lambda>_. zero_match)(1 := \<lparr>listingId = 1, requestId = 1, m_landlord = scenario_landlord,
          m_tenant = scenario_tenant, m_timestamp = 102, isConfirmed = True,
          landlordConfirmed = True, tenantConfirmed = True\<rparr>)"
    "events scenario_confirmed =
       [ListingCreated 1 scenario_landlord, RequestCreated 1 scenario_tenant,
        MatchCreated 1 1 1, MatchConfirmed 1 scenario_landlord,
        MatchConfirmed 1 scenario_tenant]"
    "isPaused scenario_confirmed = False"
    unfolding s by (simp_all add: scenario_half_confirmed_fields)
qed

lemma scenario_reachable:
  "reachable scenario_deployed" "reachable scenario_listed" "reachable scenario_requested"
  "reachable scenario_matched" "reachable scenario_half_confirmed"
  "reachable scenario_confirmed" "reachable scenario_paused"
  unfolding scenario_deployed_def scenario_listed_def scenario_requested_def
    scenario_matched_def scenario_half_confirmed_def scenario_confirmed_def
    scenario_paused_def
  by (intro reachable.intros)+

lemma scenario_matched_result:
  "createMatch scenario_requested scenario_landlord 102 1 1 = Inr scenario_matched"
proof -
  obtain s' where e: "createMatch scenario_requested scenario_landlord 102 1 1 = Inr s'"
    using scenario_createMatch by blast
  then show ?thesis by (simp add: scenario_matched_def transact_Inr)
qed

lemma confirmMatch_keeps:
  assumes "confirmMatch s a mid = Inr s'"
  shows "listings s' = listings s" and "requests s' = requests s"
  using confirmMatch_Inr(4) [OF assms] by auto

lemma scenario_records_kept:
  "listings scenario_half_confirmed = listings scenario_matched"
  "requests scenario_half_confirmed = requests scenario_matched"
  "listings scenario_confirmed = listings scenario_matched"
  "requests scenario_confirmed = requests scenario_matched"
  using confirmMatch_keeps [OF scenario_first_confirm] confirmMatch_keeps [OF scenario_second_confirm]
  by simp_all

lemma scenario_later:
  "later scenario_matched scenario_confirmed" "later scenario_half_confirmed scenario_confirmed"
proof -
  have "later scenario_matched scenario_half_confirmed"
    unfolding scenario_half_confirmed_def by (intro later.intros)
  then show "later scenario_matched scenario_confirmed"
    unfolding scenario_confirmed_def by (rule later.after)
  show "later scenario_half_confirmed scenario_confirmed"
    unfolding scenario_confirmed_def by (intro later.intros)
qed

subsection \<open>Confirmation\<close>

lemma confirmMatch_again_fails:
  assumes "m_landlord (matches s2 mid) = a \<and> landlordConfirmed (matches s2 mid)
           \<or> m_landlord (matches s2 mid) \<noteq> a \<and> m_tenant (matches s2 mid) = a
              \<and> tenantConfirmed (matches s2 mid)"
  shows "\<exists>r. confirmMatch s2 a mid = Inl (Reason r)"
  using assms unfolding confirmMatch_def by auto

lemma confirmMatch_sets_flag:
  assumes "confirmMatch s a mid = Inr s1"
  shows "matchCounter s1 = matchCounter s"
    and "m_landlord (matches s1 mid) = a \<and> landlordConfirmed (matches s1 mid)
         \<or> m_landlord (matches s1 mid) \<noteq> a \<and> m_tenant (matches s1 mid) = a
            \<and> tenantConfirmed (matches s1 mid)"
  using confirmMatch_Inr(4) [OF assms] by (auto split: if_splits)

text \<open>
  Claim C3, for two distinct parties. In every reachable state and for every match: the
  overall flag is set exactly when both party flags are; the landlord's flag is set exactly
  when the landlord has confirmed once, the tenant's exactly when the tenant is another
  identity than the landlord and has confirmed once, so the match is confirmed exactly when
  its landlord and tenant are distinct identities and each has confirmed once (a match of
  one identity with itself is never confirmed); nobody confirms a match more than once;
  once a party has confirmed, every later \<open>confirmMatch\<close> of that party on that match
  reverts; and a confirmed match stays confirmed in every later state.
\<close>

theorem confirmMatch_dual_confirmation:
  assumes "reachable s"
  shows "(isConfirmed (matches s mid) \<longleftrightarrow>
            landlordConfirmed (matches s mid) \<and> tenantConfirmed (matches s mid))
    \<and> (landlordConfirmed (matches s mid) \<longleftrightarrow>
            confirmations s mid (m_landlord (matches s mid)) = 1)
    \<and> (tenantConfirmed (matches s mid) \<longleftrightarrow>
            m_tenant (matches s mid) \<noteq> m_landlord (matches s mid)
            \<and> confirmations s mid (m_tenant (matches s mid)) = 1)
    \<and> (isConfirmed (matches s mid) \<longleftrightarrow>
            m_tenant (matches s mid) \<noteq> m_landlord (matches s mid)
            \<and> confirmations s mid (m_landlord (matches s mid)) = 1
            \<and> confirmations s mid (m_tenant (matches s mid)) = 1)
    \<and> confirmations s mid a \<le> 1
    \<and> (\<forall>s1 s2. confirmMatch s a mid = Inr s1 \<longrightarrow> later s1 s2 \<longrightarrow>
          (\<exists>r. confirmMatch s2 a mid = Inl (Reason r)))
    \<and> (\<forall>s2. isConfirmed (matches s mid) \<longrightarrow> later s s2 \<longrightarrow> isConfirmed (matches s2 mid))"
proof -
  have ci: "confirm_inv s" using assms by (rule reachable_confirm_inv)
  have ii: "issued_inv s" using assms by (rule reachable_issued_inv)
  let ?M = "matches s mid"
  have f1: "isConfirmed ?M \<longleftrightarrow> landlordConfirmed ?M \<and> tenantConfirmed ?M"
    using ci by (simp add: confirm_inv_def)
  have f2: "tenantConfirmed ?M \<longrightarrow> m_tenant ?M \<noteq> m_landlord ?M"
    using ci by (simp add: confirm_inv_def)
  have f3: "confirmations s mid x =
               (if x = m_landlord ?M \<and> landlordConfirmed ?M then 1 else 0)
               + (if x = m_tenant ?M \<and> tenantConfirmed ?M then 1 else 0)" for x
    using ci by (simp add: confirm_inv_def confirmations_def)
  have g1: "landlordConfirmed ?M \<longleftrightarrow> confirmations s mid (m_landlord ?M) = 1"
    using f2 by (auto simp: f3)
  have g2: "tenantConfirmed ?M \<longleftrightarrow>
              m_tenant ?M \<noteq> m_landlord ?M \<and> confirmations s mid (m_tenant ?M) = 1"
    using f2 by (auto simp: f3)
  have g3: "isConfirmed ?M \<longleftrightarrow>
              m_tenant ?M \<noteq> m_landlord ?M \<and> confirmations s mid (m_landlord ?M) = 1
              \<and> confirmations s mid (m_tenant ?M) = 1"
    using f1 g1 g2 by blast
  have g4: "confirmations s mid a \<le> 1"
    using f2 by (auto simp: f3)
  have g5: "\<exists>r. confirmMatch s2 a mid = Inl (Reason r)"
    if c: "confirmMatch s a mid = Inr s1" and l: "later s1 s2" for s1 s2
  proof -
    have "?M \<noteq> zero_match" using confirmMatch_Inr(2) [OF c] by (auto simp: zero_match_def)
    then have "mid < matchCounter s" using ii by (rule issued_match [rotated])
    then have "mid < matchCounter s1" using confirmMatch_sets_flag(1) [OF c] by simp
    with l have "match_kept mid s1 s2" by (rule match_kept_later)
    with confirmMatch_sets_flag(2) [OF c]
    have "m_landlord (matches s2 mid) = a \<and> landlordConfirmed (matches s2 mid)
           \<or> m_landlord (matches s2 mid) \<noteq> a \<and> m_tenant (matches s2 mid) = a
              \<and> tenantConfirmed (matches s2 mid)"
      by (auto simp: match_kept_def)
    then show ?thesis by (rule confirmMatch_again_fails)
  qed
  have g6: "isConfirmed (matches s2 mid)" if c: "isConfirmed ?M" and l: "later s s2" for s2
  proof -
    have "?M \<noteq> zero_match" using c by (auto simp: zero_match_def)
    then have "mid < matchCounter s" using ii by (rule issued_match [rotated])
    with l have "match_kept mid s s2" by (rule match_kept_later)
    with c show ?thesis by (simp add: match_kept_def)
  qed
  show ?thesis using f1 g1 g2 g3 g4 g5 g6 by blast
qed

theorem confirmMatch_dual_confirmation_witness:
  "reachable scenario_matched
   \<and> confirmMatch scenario_matched scenario_landlord 1 = Inr scenario_half_confirmed
   \<and> later scenario_half_confirmed scenario_confirmed
   \<and> confirmMatch scenario_confirmed scenario_landlord 1 = Inl (Reason ''Match already confirmed'')
   \<and> reachable scenario_confirmed
   \<and> isConfirmed (matches scenario_confirmed 1)
   \<and> confirmations scenario_confirmed 1 scenario_landlord = 1
   \<and> confirmations scenario_confirmed 1 scenario_tenant = 1
   \<and> later scenario_confirmed (transact scenario_confirmed scenario_tenant 105 (ConfirmMatch 1))
   \<and> isConfirmed (matches (transact scenario_confirmed scenario_tenant 105 (ConfirmMatch 1)) 1)"
proof -
  have l1: "later scenario_half_confirmed scenario_confirmed"
    unfolding scenario_confirmed_def by (intro later.intros)
  have l2: "later scenario_confirmed (transact scenario_confirmed scenario_tenant 105 (ConfirmMatch 1))"
    by (intro later.intros)
  have c: "confirmMatch scenario_confirmed scenario_landlord 1 = Inl (Reason ''Match already confirmed'')"
    by (simp add: confirmMatch_def scenario_confirmed_fields scenario_landlord_def)
  have i: "isConfirmed (matches scenario_confirmed 1)"
    by (simp add: scenario_confirmed_fields)
  show ?thesis
    using confirmMatch_dual_confirmation [OF scenario_reachable(4), of 1 scenario_landlord]
      confirmMatch_dual_confirmation [OF scenario_reachable(6), of 1 scenario_landlord]
      scenario_reachable(4) scenario_reachable(6) scenario_first_confirm l1 l2 c i
    by (simp add: scenario_confirmed_fields)
qed

subsection \<open>A match of one identity with itself\<close>

lemma selfmatch_requested_fields:
  "matchCounter selfmatch_requested = 1"
  "listings selfmatch_requested = listings scenario_listed"
  "requests selfmatch_requested =
     (\<lambda>_. zero_request)(1 := \<lparr>encryptedMaxBudget = 2500, encryptedMinBedrooms = 2,
        encryptedPreferredPostalCode = 12345, encryptedPreferredPropertyType = 1,
        r_isActive = True, tenant = scenario_landlord, r_timestamp = 101,
        r_isMatched = False\<rparr>)"
  "matches selfmatch_requested = (\<lambda>_. zero_match)"
  "events selfmatch_requested =
     [ListingCreated 1 scenario_landlord, RequestCreated 1 scenario_landlord]"
  "isPaused selfmatch_requested = False"
proof -
  have "\<exists>s'. createRequest scenario_listed scenario_landlord 101 2500 2 12345 1 = Inr s'"
    by (simp add: createRequest_def scenario_listed_fields MAX_UINT256_def)
  then obtain s' where
    e: "createRequest scenario_listed scenario_landlord 101 2500 2 12345 1 = Inr s'"
    by blast
  have s: "selfmatch_requested = s'" using e by (simp add: selfmatch_requested_def transact_Inr)
  show "matchCounter selfmatch_requested = 1"
    "listings selfmatch_requested = listings scenario_listed"
    "requests selfmatch_requested =
       (\<lambda>_. zero_request)(1 := \<lparr>encryptedMaxBudget = 2500, encryptedMinBedrooms = 2,
          encryptedPreferredPostalCode = 12345, encryptedPreferredPropertyType = 1,
          r_isActive = True, tenant = scenario_landlord, r_timestamp = 101,
          r_isMatched = False\<rparr>)"
    "matches selfmatch_requested = (\<lambda>_. zero_match)"
    "events selfmatch_requested =
       [ListingCreated 1 scenario_landlord, RequestCreated 1 scenario_landlord]"
    "isPaused selfmatch_requested = False"
    unfolding s createRequest_Inr(1) [OF e] by (simp_all add: scenario_listed_fields)
qed

lemma selfmatch_matched_fields:
  "matches selfmatch_matched =
     (\<lambda>_. zero_match)(1 := \<lparr>listingId = 1, requestId = 1, m_landlord = scenario_landlord,
        m_tenant = scenario_landlord, m_timestamp = 102, isConfirmed = False,
        landlordConfirmed = False, tenantConfirmed = False\<rparr>)"
  "events selfmatch_matched =
     [ListingCreated 1 scenario_landlord, RequestCreated 1 scenario_landlord,
      MatchCreated 1 1 1]"
  "isPaused selfmatch_matched = False"
proof -
  have "\<exists>s'. createMatch selfmatch_requested scenario_landlord 102 1 1 = Inr s'"
    by (simp add: createMatch_def selfmatch_requested_fields scenario_listed_fields
        MAX_UINT256_def)
  then obtain s' where e: "createMatch selfmatch_requested scenario_landlord 102 1 1 = Inr s'"
    by blast
  have s: "selfmatch_matched = s'" using e by (simp add: selfmatch_matched_def transact_Inr)
  show "matches selfmatch_matched =
       (\<lambda>_. zero_match)(1 := \<lparr>listingId = 1, requestId = 1, m_landlord = scenario_landlord,
          m_tenant = scenario_landlord, m_timestamp = 102, isConfirmed = False,
          landlordConfirmed = False, tenantConfirmed = False\<rparr>)"
    "events selfmatch_matched =
       [ListingCreated 1 scenario_landlord, RequestCreated 1 scenario_landlord,
        MatchCreated 1 1 1]"
    "isPaused selfmatch_matched = False"
    unfolding s createMatch_Inr(1) [OF e]
    by (simp_all add: selfmatch_requested_fields scenario_listed_fields)
qed

lemma selfmatch_confirm:
  "confirmMatch selfmatch_matched scenario_landlord 1 = Inr selfmatch_confirmed"
proof -
  have "\<exists>s'. confirmMatch selfmatch_matched scenario_landlord 1 = Inr s'"
    by (simp add: confirmMatch_def selfmatch_matched_fields scenario_landlord_def)
  then obtain s' where e: "confirmMatch selfmatch_matched scenario_landlord 1 = Inr s'"
    by blast
  then show ?thesis by (simp add: selfmatch_confirmed_def transact_Inr)
qed

lemma selfmatch_confirmed_fields:
  "matches selfmatch_confirmed =
     (\<lambda>_. zero_match)(1 := \<lparr>listingId = 1, requestId = 1, m_landlord = scenario_landlord,
        m_tenant = scenario_landlord, m_timestamp = 102, isConfirmed = False,
        landlordConfirmed = True, tenantConfirmed = False\<rparr>)"
  "events selfmatch_confirmed =
     [ListingCreated 1 scenario_landlord, RequestCreated 1 scenario_landlord,
      MatchCreated 1 1 1, MatchConfirmed 1 scenario_landlord]"
  "isPaused selfmatch_confirmed = False"
proof -
  have s: "selfmatch_confirmed =
      selfmatch_matched\<lparr>matches := (matches selfmatch_matched)(1 :=
          (matches selfmatch_matched 1)\<lparr>landlordConfirmed := True\<rparr>),
        events := events selfmatch_matched @ [MatchConfirmed 1 scenario_landlord]\<rparr>"
    using confirmMatch_Inr(4) [OF selfmatch_confirm]
    by (auto simp: selfmatch_matched_fields)
  show "matches selfmatch_confirmed =
       (\<lambda>_. zero_match)(1 := \<lparr>listingId = 1, requestId = 1, m_landlord = scenario_landlord,
          m_tenant = scenario_landlord, m_timestamp = 102, isConfirmed = False,
          landlordConfirmed = True, tenantConfirmed = False\<rparr>)"
    "events selfmatch_confirmed =
       [ListingCreated 1 scenario_landlord, RequestCreated 1 scenario_landlord,
        MatchCreated 1 1 1, MatchConfirmed 1 scenario_landlord]"
    "isPaused selfmatch_confirmed = False"
    unfolding s by (simp_all add: selfmatch_matched_fields)
qed

lemma selfmatch_reachable: "reachable selfmatch_confirmed"
  unfolding selfmatch_confirmed_def selfmatch_matched_def selfmatch_requested_def
    scenario_listed_def scenario_deployed_def
  by (intro reachable.intros)


text \<open>
  Claim C3 without the condition that the two parties differ: the overall flag is set
  exactly when the landlord and the tenant have each confirmed once. This fails for a match
  whose landlord and tenant are one identity. After that identity's one confirmation both
  counts are 1, yet \<open>confirmMatch\<close> took the landlord's branch, the tenant's flag is unset
  and the match is not confirmed; the same identity's next call reverts in the landlord's
  branch, so the tenant's branch is never reached.
\<close>

theorem confirmMatch_self_match_counterexample:
  "reachable selfmatch_confirmed
   \<and> m_landlord (matches selfmatch_confirmed 1) = scenario_landlord
   \<and> m_tenant (matches selfmatch_confirmed 1) = scenario_landlord
   \<and> confirmations selfmatch_confirmed 1 (m_landlord (matches selfmatch_confirmed 1)) = 1
   \<and> confirmations selfmatch_confirmed 1 (m_tenant (matches selfmatch_confirmed 1)) = 1
   \<and> \<not> isConfirmed (matches selfmatch_confirmed 1)
   \<and> \<not> (isConfirmed (matches selfmatch_confirmed 1) \<longleftrightarrow>
          confirmations selfmatch_confirmed 1 (m_landlord (matches selfmatch_confirmed 1)) = 1
          \<and> confirmations selfmatch_confirmed 1 (m_tenant (matches selfmatch_confirmed 1)) = 1)
   \<and> confirmMatch selfmatch_confirmed scenario_landlord 1
       = Inl (Reason ''Already confirmed by landlord'')"
proof -
  have l: "m_landlord (matches selfmatch_confirmed 1) = scenario_landlord"
    and t: "m_tenant (matches selfmatch_confirmed 1) = scenario_landlord"
    and n: "\<not> isConfirmed (matches selfmatch_confirmed 1)"
    by (simp_all add: selfmatch_confirmed_fields)
  have c: "confirmations selfmatch_confirmed 1 scenario_landlord = 1"
    by (simp add: confirmations_def selfmatch_confirmed_fields)
  have r: "confirmMatch selfmatch_confirmed scenario_landlord 1
       = Inl (Reason ''Already confirmed by landlord'')"
    by (simp add: confirmMatch_def selfmatch_confirmed_fields scenario_landlord_def)
  show ?thesis using selfmatch_reachable l t n c r by simp
qed

subsection \<open>Matched records\<close>

text \<open>
  Claim C4. In every reachable state, no transaction clears the matched flag of a listing
  or of a request; a record whose flag is set keeps it in every later state, where every
  \<open>createMatch\<close> naming it reverts; in particular after a successful \<open>createMatch\<close> every
  later \<open>createMatch\<close> on the same listing, or on the same request, reverts.
\<close>

theorem matched_flag_permanent:
  assumes "reachable s"
  shows "(l_isMatched (listings s lid) \<longrightarrow> l_isMatched (listings (transact s a t c) lid))
    \<and> (r_isMatched (requests s rid) \<longrightarrow> r_isMatched (requests (transact s a t c) rid))
    \<and> (\<forall>s2 a2 t2 x. l_isMatched (listings s lid) \<longrightarrow> later s s2 \<longrightarrow>
          l_isMatched (listings s2 lid) \<and> (\<exists>r. createMatch s2 a2 t2 lid x = Inl (Reason r)))
    \<and> (\<forall>s2 a2 t2 x. r_isMatched (requests s rid) \<longrightarrow> later s s2 \<longrightarrow>
          r_isMatched (requests s2 rid) \<and> (\<exists>r. createMatch s2 a2 t2 x rid = Inl (Reason r)))
    \<and> (\<forall>s1 s2 a2 t2 x. createMatch s a t lid rid = Inr s1 \<longrightarrow> later s1 s2 \<longrightarrow>
          (\<exists>r. createMatch s2 a2 t2 lid x = Inl (Reason r))
          \<and> (\<exists>r. createMatch s2 a2 t2 x rid = Inl (Reason r)))"
proof -
  have ii: "issued_inv s" using assms by (rule reachable_issued_inv)
  have ll: "l_isMatched (listings s2 lid)"
    if m: "l_isMatched (listings s lid)" and l: "later s s2" for s2
  proof -
    have "listings s lid \<noteq> zero_listing" using m by (auto simp: zero_listing_def)
    then have "lid < listingIdCounter s"
      using issued_listing [OF ii] by (simp add: listing_exists_def)
    then show ?thesis using listing_matched_later [OF l] m by simp
  qed
  have rr: "r_isMatched (requests s2 rid)"
    if m: "r_isMatched (requests s rid)" and l: "later s s2" for s2
  proof -
    have "requests s rid \<noteq> zero_request" using m by (auto simp: zero_request_def)
    then have "rid < requestIdCounter s"
      using issued_request [OF ii] by (simp add: request_exists_def)
    then show ?thesis using request_matched_later [OF l] m by simp
  qed
  have one: "later s (transact s a t c)" by (intro later.intros)
  have p1: "l_isMatched (listings s lid) \<longrightarrow> l_isMatched (listings (transact s a t c) lid)"
    using ll one by blast
  have p2: "r_isMatched (requests s rid) \<longrightarrow> r_isMatched (requests (transact s a t c) rid)"
    using rr one by blast
  have p3: "l_isMatched (listings s2 lid) \<and> (\<exists>r. createMatch s2 a2 t2 lid x = Inl (Reason r))"
    if "l_isMatched (listings s lid)" and "later s s2" for s2 a2 t2 x
    using ll [OF that] createMatch_matched_listing_fails by blast
  have p4: "r_isMatched (requests s2 rid) \<and> (\<exists>r. createMatch s2 a2 t2 x rid = Inl (Reason r))"
    if "r_isMatched (requests s rid)" and "later s s2" for s2 a2 t2 x
    using rr [OF that] createMatch_matched_request_fails by blast
  have p5: "(\<exists>r. createMatch s2 a2 t2 lid x = Inl (Reason r))
          \<and> (\<exists>r. createMatch s2 a2 t2 x rid = Inl (Reason r))"
    if c: "createMatch s a t lid rid = Inr s1" and l: "later s1 s2" for s1 s2 a2 t2 x
  proof -
    have s1: "s1 = transact s a t (CreateMatch lid rid)" using c by (simp add: transact_def)
    then have "reachable s1" using assms by (simp add: reachable.transacted)
    then have i1: "issued_inv s1" by (rule reachable_issued_inv)
    have m: "l_isMatched (listings s1 lid)" "r_isMatched (requests s1 rid)"
      unfolding createMatch_Inr(1) [OF c] by simp_all
    have "listings s1 lid \<noteq> zero_listing" using m by (auto simp: zero_listing_def)
    then have "lid < listingIdCounter s1"
      using issued_listing [OF i1] by (simp add: listing_exists_def)
    then have a: "l_isMatched (listings s2 lid)" using listing_matched_later [OF l] m by simp
    have "requests s1 rid \<noteq> zero_request" using m by (auto simp: zero_request_def)
    then have "rid < requestIdCounter s1"
      using issued_request [OF i1] by (simp add: request_exists_def)
    then have b: "r_isMatched (requests s2 rid)" using request_matched_later [OF l] m by simp
    show ?thesis
      using a b createMatch_matched_listing_fails createMatch_matched_request_fails by blast
  qed
  show ?thesis using p1 p2 p3 p4 p5 by blast
qed

theorem matched_flag_permanent_witness:
  "reachable scenario_matched
   \<and> l_isMatched (listings scenario_matched 1) \<and> r_isMatched (requests scenario_matched 1)
   \<and> later scenario_matched scenario_confirmed
   \<and> l_isMatched (listings scenario_confirmed 1) \<and> r_isMatched (requests scenario_confirmed 1)
   \<and> createMatch scenario_confirmed scenario_tenant 106 1 1
       = Inl (Reason ''Listing already matched'')"
proof -
  note T = matched_flag_permanent [OF scenario_reachable(4), of 1 scenario_landlord 102
      "CreateMatch 1 1" 1]
  have l: "l_isMatched (listings scenario_confirmed 1)"
    using T [THEN conjunct2, THEN conjunct2, THEN conjunct1]
      scenario_matched_fields(3) scenario_later(1) by blast
  have r: "r_isMatched (requests scenario_confirmed 1)"
    using T [THEN conjunct2, THEN conjunct2, THEN conjunct2, THEN conjunct1]
      scenario_matched_fields(4) scenario_later(1) by blast
  have c: "createMatch scenario_confirmed scenario_tenant 106 1 1
       = Inl (Reason ''Listing already matched'')"
    using scenario_matched_fields(3-8)
    by (simp add: createMatch_def scenario_confirmed_fields scenario_records_kept)
  show ?thesis
    using scenario_reachable(4) scenario_matched_fields(3-4) scenario_later(1) l r c
    by (intro conjI)
qed


subsection \<open>Creating a match\<close>

lemma createMatch_not_permitted:
  assumes "issued_inv s" and "\<not> match_permitted s a lid rid"
  shows "\<exists>r \<in> createMatch_reasons. createMatch s a t lid rid = Inl (Reason r)"
proof -
  have "l_isActive (listings s lid) \<Longrightarrow> listings s lid \<noteq> zero_listing"
    by (auto simp: zero_listing_def)
  then have l: "l_isActive (listings s lid) \<Longrightarrow> listing_exists s lid"
    using issued_listing [OF assms(1), of lid] by blast
  have "r_isActive (requests s rid) \<Longrightarrow> requests s rid \<noteq> zero_request"
    by (auto simp: zero_request_def)
  then have r: "r_isActive (requests s rid) \<Longrightarrow> request_exists s rid"
    using issued_request [OF assms(1), of rid] by blast
  show ?thesis
    using assms(2) l r unfolding match_permitted_def createMatch_def createMatch_reasons_def
    by auto
qed

lemma createMatch_permitted:
  assumes "match_permitted s a lid rid" and "\<not> isPaused s" and "matchCounter s < MAX_UINT256"
  shows "\<exists>s'. createMatch s a t lid rid = Inr s'"
  using assms unfolding match_permitted_def createMatch_def by auto

text \<open>
  Claim C5. In a reachable state, when \<open>createMatch\<close> succeeds the caller is the
  listing's owner or the request's owner and both records exist, are active and are
  unmatched; the call sets both matched flags, stores the new match under the next
  identifier and logs one \<open>MatchCreated\<close>, all in the one transaction. When that condition
  fails, the call reverts with one of the contract's reason strings and the transaction
  leaves the storage as it was. When the condition holds, the call succeeds unless the
  contract is paused (or the match counter is at its maximum).
\<close>

theorem createMatch_correct:
  assumes "reachable s"
  shows "(\<forall>s'. createMatch s a t lid rid = Inr s' \<longrightarrow>
            match_permitted s a lid rid
            \<and> l_isMatched (listings s' lid) \<and> r_isMatched (requests s' rid)
            \<and> events s' = events s @ [MatchCreated (matchCounter s) lid rid]
            \<and> matches s' (matchCounter s) =
                 \<lparr>listingId = lid, requestId = rid, m_landlord = landlord (listings s lid),
                  m_tenant = tenant (requests s rid), m_timestamp = t, isConfirmed = False,
                  landlordConfirmed = False, tenantConfirmed = False\<rparr>
            \<and> listings s' = (listings s)(lid := (listings s lid)\<lparr>l_isMatched := True\<rparr>)
            \<and> requests s' = (requests s)(rid := (requests s rid)\<lparr>r_isMatched := True\<rparr>)
            \<and> matchCounter s' = matchCounter s + 1
            \<and> transact s a t (CreateMatch lid rid) = s')
    \<and> (\<not> match_permitted s a lid rid \<longrightarrow>
            (\<exists>r \<in> createMatch_reasons. createMatch s a t lid rid = Inl (Reason r))
            \<and> transact s a t (CreateMatch lid rid) = s)
    \<and> (match_permitted s a lid rid \<and> \<not> isPaused s \<and> matchCounter s < MAX_UINT256 \<longrightarrow>
            (\<exists>s'. createMatch s a t lid rid = Inr s'))"
proof -
  have ii: "issued_inv s" using assms by (rule reachable_issued_inv)
  have p1: "match_permitted s a lid rid
            \<and> l_isMatched (listings s' lid) \<and> r_isMatched (requests s' rid)
            \<and> events s' = events s @ [MatchCreated (matchCounter s) lid rid]
            \<and> matches s' (matchCounter s) =
                 \<lparr>listingId = lid, requestId = rid, m_landlord = landlord (listings s lid),
                  m_tenant = tenant (requests s rid), m_timestamp = t, isConfirmed = False,
                  landlordConfirmed = False, tenantConfirmed = False\<rparr>
            \<and> listings s' = (listings s)(lid := (listings s lid)\<lparr>l_isMatched := True\<rparr>)
            \<and> requests s' = (requests s)(rid := (requests s rid)\<lparr>r_isMatched := True\<rparr>)
            \<and> matchCounter s' = matchCounter s + 1
            \<and> transact s a t (CreateMatch lid rid) = s'"
    if c: "createMatch s a t lid rid = Inr s'" for s'
  proof -
    have "match_permitted s a lid rid"
    proof (rule ccontr)
      assume "\<not> match_permitted s a lid rid"
      from createMatch_not_permitted [OF ii this, of t] show False using c by auto
    qed
    moreover have "transact s a t (CreateMatch lid rid) = s'" using c by (simp add: transact_def)
    moreover have "l_isMatched (listings s' lid)" "r_isMatched (requests s' rid)"
      "events s' = events s @ [MatchCreated (matchCounter s) lid rid]"
      "matches s' (matchCounter s) =
                 \<lparr>listingId = lid, requestId = rid, m_landlord = landlord (listings s lid),
                  m_tenant = tenant (requests s rid), m_timestamp = t, isConfirmed = False,
                  landlordConfirmed = False, tenantConfirmed = False\<rparr>"
      "listings s' = (listings s)(lid := (listings s lid)\<lparr>l_isMatched := True\<rparr>)"
      "requests s' = (requests s)(rid := (requests s rid)\<lparr>r_isMatched := True\<rparr>)"
      "matchCounter s' = matchCounter s + 1"
      unfolding createMatch_Inr(1) [OF c] by simp_all
    ultimately show ?thesis by simp
  qed
  have p2: "(\<exists>r \<in> createMatch_reasons. createMatch s a t lid rid = Inl (Reason r))
            \<and> transact s a t (CreateMatch lid rid) = s"
    if n: "\<not> match_permitted s a lid rid"
  proof -
    from createMatch_not_permitted [OF ii n, of t]
    obtain r where r: "r \<in> createMatch_reasons" "createMatch s a t lid rid = Inl (Reason r)"
      by blast
    then have "transact s a t (CreateMatch lid rid) = s" by (simp add: transact_def)
    with r show ?thesis by blast
  qed
  have p3: "\<exists>s'. createMatch s a t lid rid = Inr s'"
    if "match_permitted s a lid rid \<and> \<not> isPaused s \<and> matchCounter s < MAX_UINT256"
    using that createMatch_permitted by blast
  show ?thesis using p1 p2 p3 by blast
qed

theorem createMatch_correct_witness:
  "reachable scenario_requested
   \<and> match_permitted scenario_requested scenario_landlord 1 1
   \<and> createMatch scenario_requested scenario_landlord 102 1 1 = Inr scenario_matched
   \<and> l_isMatched (listings scenario_matched 1) \<and> r_isMatched (requests scenario_matched 1)
   \<and> events scenario_matched = events scenario_requested @ [MatchCreated 1 1 1]
   \<and> \<not> match_permitted scenario_requested 3 1 1
   \<and> createMatch scenario_requested 3 102 1 1
       = Inl (Reason ''Not authorized to create this match'')
   \<and> transact scenario_requested 3 102 (CreateMatch 1 1) = scenario_requested
   \<and> reachable scenario_matched
   \<and> \<not> match_permitted scenario_matched scenario_landlord 1 1
   \<and> createMatch scenario_matched scenario_landlord 107 1 1
       = Inl (Reason ''Listing already matched'')
   \<and> transact scenario_matched scenario_landlord 107 (CreateMatch 1 1) = scenario_matched"
proof -
  have req: "l_isActive (listings scenario_requested 1)" "r_isActive (requests scenario_requested 1)"
    "\<not> l_isMatched (listings scenario_requested 1)" "\<not> r_isMatched (requests scenario_requested 1)"
    "landlord (listings scenario_requested 1) = scenario_landlord"
    "tenant (requests scenario_requested 1) = scenario_tenant"
    by (simp_all add: scenario_requested_fields scenario_listed_fields)
  have p: "match_permitted scenario_requested scenario_landlord 1 1"
    using req by (simp add: match_permitted_def listing_exists_def request_exists_def
        scenario_requested_fields)
  have np: "\<not> match_permitted scenario_requested 3 1 1"
    using req by (simp add: match_permitted_def scenario_landlord_def scenario_tenant_def)
  have c1: "createMatch scenario_requested 3 102 1 1
       = Inl (Reason ''Not authorized to create this match'')"
    using req by (simp add: createMatch_def scenario_requested_fields scenario_landlord_def
        scenario_tenant_def)
  have nm: "\<not> match_permitted scenario_matched scenario_landlord 1 1"
    using scenario_matched_fields(3) by (simp add: match_permitted_def)
  have c2: "createMatch scenario_matched scenario_landlord 107 1 1
       = Inl (Reason ''Listing already matched'')"
    using scenario_matched_fields(3-6) by (simp add: createMatch_def scenario_matched_fields(10))
  have e: "events scenario_matched = events scenario_requested @ [MatchCreated 1 1 1]"
    by (simp add: scenario_matched_fields scenario_requested_fields)
  note A = createMatch_correct [OF scenario_reachable(3), of scenario_landlord 102 1 1]
  note B = createMatch_correct [OF scenario_reachable(3), of 3 102 1 1]
  note C = createMatch_correct [OF scenario_reachable(4), of scenario_landlord 107 1 1]
  have t1: "transact scenario_requested 3 102 (CreateMatch 1 1) = scenario_requested"
    using B [THEN conjunct2, THEN conjunct1] np by blast
  have t2: "transact scenario_matched scenario_landlord 107 (CreateMatch 1 1) = scenario_matched"
    using C [THEN conjunct2, THEN conjunct1] nm by blast
  have m: "l_isMatched (listings scenario_matched 1) \<and> r_isMatched (requests scenario_matched 1)"
    using A [THEN conjunct1] scenario_matched_result by blast
  show ?thesis
    using scenario_reachable(3) p scenario_matched_result m e np c1 t1 scenario_reachable(4)
      nm c2 t2
    by (intro conjI) simp_all
qed


subsection \<open>The pause flag\<close>

lemma getActiveListingsCount_loop_pause:
  "getActiveListingsCount_loop (s\<lparr>isPaused := flag\<rparr>) i n = getActiveListingsCount_loop s i n"
proof (induction s i n rule: getActiveListingsCount_loop.induct)
  case (1 s i count)
  show ?case
  proof (cases "i < listingIdCounter s")
    case True
    then show ?thesis
      using "1.IH" [OF True]
      by (simp add: getActiveListingsCount_loop.simps [of s i count]
          getActiveListingsCount_loop.simps [of "s\<lparr>isPaused := flag\<rparr>" i count])
  next
    case False
    then show ?thesis
      by (simp add: getActiveListingsCount_loop.simps [of s i count]
          getActiveListingsCount_loop.simps [of "s\<lparr>isPaused := flag\<rparr>" i count])
  qed
qed

lemma getActiveRequestsCount_loop_pause:
  "getActiveRequestsCount_loop (s\<lparr>isPaused := flag\<rparr>) i n = getActiveRequestsCount_loop s i n"
proof (induction s i n rule: getActiveRequestsCount_loop.induct)
  case (1 s i count)
  show ?case
  proof (cases "i < requestIdCounter s")
    case True
    then show ?thesis
      using "1.IH" [OF True]
      by (simp add: getActiveRequestsCount_loop.simps [of s i count]
          getActiveRequestsCount_loop.simps [of "s\<lparr>isPaused := flag\<rparr>" i count])
  next
    case False
    then show ?thesis
      by (simp add: getActiveRequestsCount_loop.simps [of s i count]
          getActiveRequestsCount_loop.simps [of "s\<lparr>isPaused := flag\<rparr>" i count])
  qed
qed

lemma scenario_paused_eq: "scenario_paused = scenario_matched\<lparr>isPaused := True\<rparr>"
proof -
  have "pause scenario_matched 4 = Inr (scenario_matched\<lparr>isPaused := True\<rparr>)"
    using scenario_matched_fields(11) by (simp add: pause_def)
  then show ?thesis by (simp add: scenario_paused_def transact_def)
qed

text \<open>
  Claim C6. While the pause flag is set, \<open>createListing\<close>, \<open>createRequest\<close> and
  \<open>createMatch\<close> revert with "Contract is paused" and the transaction changes nothing;
  the four read-only queries return the same whatever the flag is; while the flag is
  clear, none of the three reverts with the pause reason.
\<close>

theorem pause_gates_creation:
  "(isPaused s \<longrightarrow>
      createListing s a t p b z k = Inl (Reason ''Contract is paused'')
      \<and> createRequest s a t p b z k = Inl (Reason ''Contract is paused'')
      \<and> createMatch s a t lid rid = Inl (Reason ''Contract is paused'')
      \<and> transact s a t (CreateListing p b z k) = s
      \<and> transact s a t (CreateRequest p b z k) = s
      \<and> transact s a t (CreateMatch lid rid) = s)
   \<and> getUserListings (s\<lparr>isPaused := flag\<rparr>) u = getUserListings s u
   \<and> getUserRequests (s\<lparr>isPaused := flag\<rparr>) u = getUserRequests s u
   \<and> getActiveListingsCount (s\<lparr>isPaused := flag\<rparr>) = getActiveListingsCount s
   \<and> getActiveRequestsCount (s\<lparr>isPaused := flag\<rparr>) = getActiveRequestsCount s
   \<and> (\<not> isPaused s \<longrightarrow>
      createListing s a t p b z k \<noteq> Inl (Reason ''Contract is paused'')
      \<and> createRequest s a t p b z k \<noteq> Inl (Reason ''Contract is paused'')
      \<and> createMatch s a t lid rid \<noteq> Inl (Reason ''Contract is paused''))"
proof -
  have p: "createListing s a t p b z k = Inl (Reason ''Contract is paused'')
      \<and> createRequest s a t p b z k = Inl (Reason ''Contract is paused'')
      \<and> createMatch s a t lid rid = Inl (Reason ''Contract is paused'')
      \<and> transact s a t (CreateListing p b z k) = s
      \<and> transact s a t (CreateRequest p b z k) = s
      \<and> transact s a t (CreateMatch lid rid) = s" if "isPaused s"
    using that by (simp add: createListing_def createRequest_def createMatch_def transact_def)
  have q: "getUserListings (s\<lparr>isPaused := flag\<rparr>) u = getUserListings s u"
    "getUserRequests (s\<lparr>isPaused := flag\<rparr>) u = getUserRequests s u"
    "getActiveListingsCount (s\<lparr>isPaused := flag\<rparr>) = getActiveListingsCount s"
    "getActiveRequestsCount (s\<lparr>isPaused := flag\<rparr>) = getActiveRequestsCount s"
    by (simp_all add: getUserListings_def getUserRequests_def getActiveListingsCount_def
        getActiveRequestsCount_def getActiveListingsCount_loop_pause
        getActiveRequestsCount_loop_pause)
  have n1: "createListing s a t p b z k \<noteq> Inl (Reason ''Contract is paused'')"
    if "\<not> isPaused s" using that by (simp add: createListing_def)
  have n2: "createRequest s a t p b z k \<noteq> Inl (Reason ''Contract is paused'')"
    if "\<not> isPaused s" using that by (simp add: createRequest_def)
  have n3: "createMatch s a t lid rid \<noteq> Inl (Reason ''Contract is paused'')"
    if "\<not> isPaused s" using that by (simp add: createMatch_def)
  show ?thesis using p q n1 n2 n3 by blast
qed

theorem pause_gates_creation_witness:
  "isPaused scenario_paused
   \<and> createListing scenario_paused scenario_landlord 110 2000 2 12345 1
       = Inl (Reason ''Contract is paused'')
   \<and> createRequest scenario_paused scenario_landlord 110 2000 2 12345 1
       = Inl (Reason ''Contract is paused'')
   \<and> createMatch scenario_paused scenario_landlord 110 1 1 = Inl (Reason ''Contract is paused'')
   \<and> transact scenario_paused scenario_landlord 110 (CreateListing 2000 2 12345 1)
       = scenario_paused
   \<and> getUserListings scenario_paused scenario_landlord
       = getUserListings scenario_matched scenario_landlord
   \<and> getActiveListingsCount scenario_paused = getActiveListingsCount scenario_matched
   \<and> isPaused scenario_deployed = False
   \<and> createListing scenario_deployed scenario_landlord 100 2000 2 12345 1
       \<noteq> Inl (Reason ''Contract is paused'')"
proof -
  have p: "isPaused scenario_paused" by (simp add: scenario_paused_eq)
  note A = pause_gates_creation [of scenario_paused scenario_landlord 110 2000 2 12345 1 1 1
      True scenario_landlord]
  note B = pause_gates_creation [of scenario_matched scenario_landlord 110 2000 2 12345 1 1 1
      True scenario_landlord]
  note C = pause_gates_creation [of scenario_deployed scenario_landlord 100 2000 2 12345 1 1 1
      True scenario_landlord]
  have a: "createListing scenario_paused scenario_landlord 110 2000 2 12345 1
       = Inl (Reason ''Contract is paused'')
   \<and> createRequest scenario_paused scenario_landlord 110 2000 2 12345 1
       = Inl (Reason ''Contract is paused'')
   \<and> createMatch scenario_paused scenario_landlord 110 1 1 = Inl (Reason ''Contract is paused'')
   \<and> transact scenario_paused scenario_landlord 110 (CreateListing 2000 2 12345 1)
       = scenario_paused"
    using A [THEN conjunct1] p by blast
  have b: "getUserListings scenario_paused scenario_landlord
       = getUserListings scenario_matched scenario_landlord
   \<and> getActiveListingsCount scenario_paused = getActiveListingsCount scenario_matched"
    using B [THEN conjunct2] unfolding scenario_paused_eq by blast
  have c: "createListing scenario_deployed scenario_landlord 100 2000 2 12345 1
       \<noteq> Inl (Reason ''Contract is paused'')"
    using C scenario_deployed_fields(8) by blast
  show ?thesis using p a b c scenario_deployed_fields(8) by blast
qed


subsection \<open>Argument checks of the two creation calls\<close>

text \<open>
  Claim C9. A \<open>createListing\<close> or \<open>createRequest\<close> whose bedroom count is 0 or above 10, or
  whose property type is below 1 or above 3, reverts with a reason string, and the
  transaction leaves the storage as it was: no record, no log entry, no new identifier.
\<close>

theorem create_rejects_bad_bedrooms_or_type:
  assumes "b = 0 \<or> 10 < b \<or> k < 1 \<or> 3 < k"
  shows "(\<exists>r \<in> {''Contract is paused'', ''Price must be greater than 0'',
                   ''Invalid bedroom count'', ''Invalid property type''}.
            createListing s a t p b z k = Inl (Reason r))
    \<and> transact s a t (CreateListing p b z k) = s
    \<and> (\<exists>r \<in> {''Contract is paused'', ''Budget must be greater than 0'',
                   ''Invalid bedroom count'', ''Invalid property type''}.
            createRequest s a t p b z k = Inl (Reason r))
    \<and> transact s a t (CreateRequest p b z k) = s"
proof -
  have c: "\<not> (0 < b \<and> b \<le> 10) \<or> \<not> (1 \<le> k \<and> k \<le> 3)"
    using assms by (auto simp: not_le)
  have l: "\<exists>r \<in> {''Contract is paused'', ''Price must be greater than 0'',
                   ''Invalid bedroom count'', ''Invalid property type''}.
            createListing s a t p b z k = Inl (Reason r)"
    using c unfolding createListing_def by auto
  have r: "\<exists>r \<in> {''Contract is paused'', ''Budget must be greater than 0'',
                   ''Invalid bedroom count'', ''Invalid property type''}.
            createRequest s a t p b z k = Inl (Reason r)"
    using c unfolding createRequest_def by auto
  have tl: "transact s a t (CreateListing p b z k) = s"
    using l by (auto simp: transact_def)
  have tr: "transact s a t (CreateRequest p b z k) = s"
    using r by (auto simp: transact_def)
  show ?thesis using l r tl tr by blast
qed

theorem create_rejects_bad_bedrooms_or_type_witness:
  "(10 :: 8 word) < 255
   \<and> createListing scenario_deployed scenario_landlord 100 2000 255 12345 1
       = Inl (Reason ''Invalid bedroom count'')
   \<and> transact scenario_deployed scenario_landlord 100 (CreateListing 2000 255 12345 1)
       = scenario_deployed
   \<and> createRequest scenario_deployed scenario_tenant 100 2500 255 12345 1
       = Inl (Reason ''Invalid bedroom count'')
   \<and> transact scenario_deployed scenario_tenant 100 (CreateRequest 2500 255 12345 1)
       = scenario_deployed
   \<and> (3 :: 8 word) < 4
   \<and> createListing scenario_deployed scenario_landlord 100 2000 2 12345 4
       = Inl (Reason ''Invalid property type'')"
proof -
  have h: "(10 :: 8 word) < 255" "(3 :: 8 word) < 4" by simp_all
  note A = create_rejects_bad_bedrooms_or_type [of 255 1 scenario_deployed scenario_landlord
      100 2000 12345]
  note B = create_rejects_bad_bedrooms_or_type [of 255 1 scenario_deployed scenario_tenant
      100 2500 12345]
  have t1: "transact scenario_deployed scenario_landlord 100 (CreateListing 2000 255 12345 1)
       = scenario_deployed"
    using A h by blast
  have t2: "transact scenario_deployed scenario_tenant 100 (CreateRequest 2500 255 12345 1)
       = scenario_deployed"
    using B h by blast
  have c1: "createListing scenario_deployed scenario_landlord 100 2000 255 12345 1
       = Inl (Reason ''Invalid bedroom count'')"
    by (simp add: createListing_def scenario_deployed_fields)
  have c2: "createRequest scenario_deployed scenario_tenant 100 2500 255 12345 1
       = Inl (Reason ''Invalid bedroom count'')"
    by (simp add: createRequest_def scenario_deployed_fields)
  have c3: "createListing scenario_deployed scenario_landlord 100 2000 2 12345 4
       = Inl (Reason ''Invalid property type'')"
    by (simp add: createListing_def scenario_deployed_fields)
  show ?thesis using h t1 t2 c1 c2 c3 by blast
qed

end
